theory Spec2Isabelle
  imports Complex_Main "HOL-Library.Sublist" "HOL-Library.AList"
begin

section \<open>JavaScript values\<close>

text \<open>
  The values that \<^verbatim>\<open>JSON.parse\<close> produces, and \<^verbatim>\<open>undefined\<close> for a property that is
  not there. An object is the list of its entries in insertion order, with one entry per
  key.
\<close>

datatype json =
    JUndefined
  | JNull
  | JBool bool
  | JNum real
  | JStr string
  | JArr "json list"
  | JObj "(string \<times> json) list"

datatype error =
    Http404Error string
  | IminValidationError string json
  | AxiosError
  | TypeError
  | UnrecognisedAttendanceModeFilter string
  | TimeZoneNameError json

text \<open>\<^verbatim>\<open>!!v\<close>: every value is truthy but \<^verbatim>\<open>undefined\<close>, \<^verbatim>\<open>null\<close>, \<^verbatim>\<open>false\<close>, \<^verbatim>\<open>0\<close> and \<^verbatim>\<open>''\<close>.\<close>

fun truthy :: "json \<Rightarrow> bool" where
  "truthy JUndefined = False"
| "truthy JNull = False"
| "truthy (JBool b) = b"
| "truthy (JNum n) = (n \<noteq> 0)"
| "truthy (JStr s) = (s \<noteq> [])"
| "truthy (JArr xs) = True"
| "truthy (JObj kvs) = True"

text \<open>Reading a property of \<^verbatim>\<open>null\<close> or \<^verbatim>\<open>undefined\<close> throws a \<^verbatim>\<open>TypeError\<close>.\<close>

fun nullish :: "json \<Rightarrow> bool" where
  "nullish JUndefined = True"
| "nullish JNull = True"
| "nullish v = False"

text \<open>
  \<^verbatim>\<open>v.k\<close> for a value that is not nullish: the entry of an object, \<^verbatim>\<open>undefined\<close> when the
  object has no such key or the value is not an object. (The keys read by the program are
  never \<^verbatim>\<open>length\<close> or an index.)
\<close>

fun getProp :: "json \<Rightarrow> string \<Rightarrow> json" where
  "getProp (JObj kvs) k = (case map_of kvs k of None \<Rightarrow> JUndefined | Some v \<Rightarrow> v)"
| "getProp v k = JUndefined"

text \<open>The decimal text of an index, which is the key of an array element or of a character.\<close>

fun decimal :: "nat \<Rightarrow> string" where
  "decimal n =
     (if n < 10 then [char_of (48 + n)]
      else decimal (n div 10) @ [char_of (48 + n mod 10)])"

declare decimal.simps [simp del]

text \<open>
  The entries that \<^verbatim>\<open>{...v}\<close> copies: those of an object, the elements of an array and the
  characters of a string under their indices, none of any other value.
\<close>

fun entriesOf :: "json \<Rightarrow> (string \<times> json) list" where
  "entriesOf (JObj kvs) = kvs"
| "entriesOf (JArr xs) = map (\<lambda>(i, x). (decimal i, x)) (enumerate 0 xs)"
| "entriesOf (JStr s) = map (\<lambda>(i, c). (decimal i, JStr [c])) (enumerate 0 s)"
| "entriesOf v = []"

text \<open>
  \<^verbatim>\<open>{...a, ...b}\<close>: the entries of \<open>b\<close> are assigned one by one; a key that is already
  there keeps its place and takes the new value, a new key goes to the end. (The engine
  lists keys that are array indices before all others; this changes the order of the
  entries of such an object, not the entries.)
\<close>

definition spread :: "(string \<times> json) list \<Rightarrow> (string \<times> json) list \<Rightarrow> (string \<times> json) list" where
  "spread a b = fold (\<lambda>(k, v). AList.update k v) b a"

text \<open>\<^verbatim>\<open>a && b\<close> and \<^verbatim>\<open>a || b\<close> return one of their operands.\<close>

definition jsAnd :: "json \<Rightarrow> json \<Rightarrow> json" where
  "jsAnd a b = (if truthy a then b else a)"

definition jsOr :: "json \<Rightarrow> json \<Rightarrow> json" where
  "jsOr a b = (if truthy a then a else b)"

text \<open>\<^verbatim>\<open>Array.prototype.findIndex\<close>: the first index whose element satisfies the test, or \<open>-1\<close>.\<close>

fun findIndex :: "('a \<Rightarrow> bool) \<Rightarrow> 'a list \<Rightarrow> int" where
  "findIndex P [] = -1"
| "findIndex P (x # xs) =
     (if P x then 0 else (let i = findIndex P xs in if i < 0 then -1 else i + 1))"

subsection \<open>Arithmetic on numbers\<close>

text \<open>
  A number is a binary64 value. The number that a decimal text denotes is the binary64
  value nearest to it, and a product is the exact product rounded in the same way: to 53
  significant bits, with no exponent below \<open>-1022\<close>, a tie going to the even neighbour.
  \<open>halvings y\<close> counts how often \<open>y\<close> can be halved before it falls below 2, which for
  \<open>y = \<bar>x\<bar> * 2 ^ 1022\<close> is the exponent of \<open>x\<close> above the least one; a result of magnitude
  \<open>2 ^ 1024\<close> or more is an infinity.
\<close>

definition roundTiesToEven :: "real \<Rightarrow> int" where
  "roundTiesToEven x =
     (let n = \<lfloor>x\<rfloor>
      in if x - of_int n < 1 / 2 then n
         else if 1 / 2 < x - of_int n then n + 1
         else if even n then n else n + 1)"

function halvings :: "real \<Rightarrow> nat" where
  "halvings y = (if y < 2 then 0 else Suc (halvings (y / 2)))"
  by pat_completeness auto
termination
proof (relation "measure (\<lambda>y. nat \<lfloor>y\<rfloor>)")
  show "wf (measure (\<lambda>y::real. nat \<lfloor>y\<rfloor>))" by simp
next
  fix y :: real
  assume "\<not> y < 2"
  then have "\<lfloor>y / 2\<rfloor> < \<lfloor>y\<rfloor>" and "0 < \<lfloor>y\<rfloor>"
    by linarith+
  then show "(y / 2, y) \<in> measure (\<lambda>y. nat \<lfloor>y\<rfloor>)"
    by simp
qed

declare halvings.simps [simp del]

definition nearestDouble :: "real \<Rightarrow> real" where
  "nearestDouble x =
     (let quantum = 2 powi (int (halvings (\<bar>x\<bar> * 2 ^ 1022)) - 1074)
      in of_int (roundTiesToEven (x / quantum)) * quantum)"

datatype float64 = Finite real | PlusInfinity | MinusInfinity

definition binary64 :: "real \<Rightarrow> float64" where
  "binary64 x =
     (let y = nearestDouble x
      in if 2 ^ 1024 \<le> y then PlusInfinity
         else if y \<le> - (2 ^ 1024) then MinusInfinity
         else Finite y)"

text \<open>
  \<^verbatim>\<open>a * b\<close> for two numbers given by their decimal texts, and \<^verbatim>\<open>d <= p\<close> for a finite
  number \<open>d\<close>.
\<close>

definition jsTimes :: "real \<Rightarrow> real \<Rightarrow> float64" where
  "jsTimes a b = binary64 (nearestDouble a * nearestDouble b)"

fun jsLessEq :: "real \<Rightarrow> float64 \<Rightarrow> bool" where
  "jsLessEq d (Finite y) = (d \<le> y)"
| "jsLessEq d PlusInfinity = True"
| "jsLessEq d MinusInfinity = False"

section \<open>Recurrence expansion: \<open>getIsoWeekdays\<close> and \<open>generateDatesWithinTimeWindow\<close>\<close>

subsection \<open>Strings\<close>

text \<open>
  JavaScript's \<^verbatim>\<open>String.prototype.includes\<close>: does the pattern occur as a contiguous
  run of characters of the string.
\<close>

fun includes_str :: "string \<Rightarrow> string \<Rightarrow> bool" where
  "includes_str [] pat = (pat = [])"
| "includes_str (c # cs) pat = (prefix pat (c # cs) \<or> includes_str cs pat)"

text \<open>
  \<^verbatim>\<open>String.prototype.replace\<close> with a string pattern: only the first occurrence is
  replaced. (The replacement strings used by the program contain no \<^verbatim>\<open>$\<close>.)
\<close>

fun replace :: "string \<Rightarrow> string \<Rightarrow> string \<Rightarrow> string" where
  "replace [] pat rep = (if pat = [] then rep else [])"
| "replace (c # cs) pat rep =
     (if prefix pat (c # cs) then rep @ drop (length pat) (c # cs)
      else c # replace cs pat rep)"

subsection \<open>Moments\<close>

text \<open>
  A moment of the \<^verbatim>\<open>moment-timezone\<close> library is a time or is invalid, as it is after
  parsing a text that is no date. A time is modelled by its wall-clock reading in the
  schedule's timezone, counted in milliseconds from 1970-01-01 00:00 (a Thursday) of that
  timezone. Adding days or weeks keeps the wall-clock time of day, as the library does;
  daylight-saving transitions are not modelled. \<^verbatim>\<open>isBefore\<close> and \<^verbatim>\<open>isAfter\<close> are false
  as soon as one of the two moments is invalid. Adding to an invalid moment leaves it
  invalid, and adding \<^verbatim>\<open>NaN\<close> days to a time leaves it as it is. A number that may be
  \<^verbatim>\<open>NaN\<close> is an \<open>int option\<close>, with \<open>None\<close> for \<^verbatim>\<open>NaN\<close>.
\<close>

datatype moment = Moment int | InvalidMoment

definition msPerDay :: int where
  "msPerDay = 86400000"

definition plusDays :: "int \<Rightarrow> int \<Rightarrow> int" where
  "plusDays t n = t + n * msPerDay"

fun isBefore :: "moment \<Rightarrow> moment \<Rightarrow> bool" where
  "isBefore (Moment a) (Moment b) = (a < b)"
| "isBefore a b = False"

fun isAfter :: "moment \<Rightarrow> moment \<Rightarrow> bool" where
  "isAfter (Moment a) (Moment b) = (b < a)"
| "isAfter a b = False"

fun addDays :: "moment \<Rightarrow> int option \<Rightarrow> moment" where
  "addDays (Moment t) (Some n) = Moment (plusDays t n)"
| "addDays (Moment t) None = Moment t"
| "addDays InvalidMoment n = InvalidMoment"

definition addWeeks :: "moment \<Rightarrow> int \<Rightarrow> moment" where
  "addWeeks m n = addDays m (Some (7 * n))"

definition dayNumber :: "int \<Rightarrow> int" where
  "dayNumber t = t div msPerDay"

text \<open>\<^verbatim>\<open>isoWeekday()\<close>: 1 is Monday, 7 is Sunday; day number 0 is a Thursday.\<close>

definition isoWeekdayOfDay :: "int \<Rightarrow> int" where
  "isoWeekdayOfDay d = (d + 3) mod 7 + 1"

fun isoWeekday :: "moment \<Rightarrow> int option" where
  "isoWeekday (Moment t) = Some (isoWeekdayOfDay (dayNumber t))"
| "isoWeekday InvalidMoment = None"

text \<open>
  The text \<^verbatim>\<open><date> <time>\<close> that \<^verbatim>\<open>combineYYYYMMDDAndHHMMString\<close> hands to the parser is
  taken in its two parts: the day number that the date part denotes and the milliseconds
  since midnight that the time part denotes, each \<open>None\<close> when the part does not parse.
  The moment is invalid unless both parts parse. The date that \<^verbatim>\<open>format('YYYY-MM-DD')\<close>
  prints for a time is read back as the day number of that time; what it prints for an
  invalid moment is no date.
\<close>

definition combineYYYYMMDDAndHHMMString :: "int option \<Rightarrow> nat option \<Rightarrow> moment" where
  "combineYYYYMMDDAndHHMMString dateDay timeMs =
     (case dateDay of
        None \<Rightarrow> InvalidMoment
      | Some d \<Rightarrow>
          (case timeMs of
             None \<Rightarrow> InvalidMoment
           | Some t \<Rightarrow> Moment (d * msPerDay + int t)))"

fun formatYYYYMMDD :: "moment \<Rightarrow> int option" where
  "formatYYYYMMDD (Moment t) = Some (dayNumber t)"
| "formatYYYYMMDD InvalidMoment = None"

text \<open>
  \<^verbatim>\<open>moment(m).utc().format()\<close>: the text of a time is left to the function given, that of
  an invalid moment is \<^verbatim>\<open>Invalid date\<close>.
\<close>

fun formatMoment :: "(int \<Rightarrow> string) \<Rightarrow> moment \<Rightarrow> string" where
  "formatMoment formatUtc (Moment t) = formatUtc t"
| "formatMoment formatUtc InvalidMoment = ''Invalid date''"

text \<open>JavaScript's \<^verbatim>\<open>%\<close> on integers: the remainder has the sign of the dividend.\<close>

definition jsRemainder :: "int \<Rightarrow> int \<Rightarrow> int" where
  "jsRemainder a b = sgn a * (\<bar>a\<bar> mod \<bar>b\<bar>)"

subsection \<open>Schedules\<close>

text \<open>
  \<^verbatim>\<open>MinimalEventSchedule\<close>, with its texts read as the parser reads them. \<open>byDay\<close> is
  \<open>None\<close> when the field is not an array (its entries are strings wherever the generator
  is called, the schema being checked first). \<open>startTime\<close> and \<open>endTime\<close> are the
  milliseconds since midnight, \<open>None\<close> when the text is no time. \<open>startDate\<close> and
  \<open>endDate\<close> are \<open>None\<close> when the field is falsy, \<open>Some None\<close> when it is there and is
  no date, and \<open>Some (Some d)\<close> for the day number \<open>d\<close>; \<open>duration\<close> is \<open>None\<close> when the
  field is falsy. The timezone only enters through the wall-clock reading of the current
  time, which is an argument of the generator.
\<close>

record MinimalEventSchedule =
  byDay :: "string list option"
  startTime :: "nat option"
  endTime :: "nat option"
  startDate :: "int option option"
  endDate :: "int option option"
  duration :: "json option"
  idTemplate :: string

text \<open>One pass of the loop body of \<^verbatim>\<open>getIsoWeekdays\<close>: the weekday pushed for one entry.\<close>

definition pushIsoWeekday :: "int list \<Rightarrow> string \<Rightarrow> int list" where
  "pushIsoWeekday isoWeekdays byDayItem =
     (if includes_str byDayItem ''Monday'' then isoWeekdays @ [1]
      else if includes_str byDayItem ''Tuesday'' then isoWeekdays @ [2]
      else if includes_str byDayItem ''Wednesday'' then isoWeekdays @ [3]
      else if includes_str byDayItem ''Thursday'' then isoWeekdays @ [4]
      else if includes_str byDayItem ''Friday'' then isoWeekdays @ [5]
      else if includes_str byDayItem ''Saturday'' then isoWeekdays @ [6]
      else if includes_str byDayItem ''Sunday'' then isoWeekdays @ [7]
      else isoWeekdays)"

text \<open>
  Without an array \<open>byDay\<close> the one weekday is that of \<open>startDate\<close>, which is \<^verbatim>\<open>NaN\<close>
  when \<open>startDate\<close> is no date. (The strict parse made here and the parse of the date part
  above are taken to accept the same texts.)
\<close>

definition getIsoWeekdays :: "MinimalEventSchedule \<Rightarrow> int option list" where
  "getIsoWeekdays eventSchedule =
     (case byDay eventSchedule of
        None \<Rightarrow>
          (case startDate eventSchedule of
             None \<Rightarrow> []
           | Some d \<Rightarrow> [map_option isoWeekdayOfDay d])
      | Some items \<Rightarrow> map Some (foldl pushIsoWeekday [] items))"

subsection \<open>The generator\<close>

definition SCHEDULE_TIME_WINDOW_IN_WEEKS :: int where
  "SCHEDULE_TIME_WINDOW_IN_WEEKS = 4"

text \<open>
  \<^verbatim>\<open>isoWeekdayOffset < 0\<close> and \<^verbatim>\<open>(weekOffset * 7) + isoWeekdayOffset\<close> for an offset that
  may be \<^verbatim>\<open>NaN\<close>.
\<close>

fun isNegative :: "int option \<Rightarrow> bool" where
  "isNegative (Some n) = (n < 0)"
| "isNegative None = False"

definition daysFromEarliest :: "int \<Rightarrow> int option \<Rightarrow> int option" where
  "daysFromEarliest weekOffset isoWeekdayOffset =
     map_option (\<lambda>n. weekOffset * 7 + n) isoWeekdayOffset"

text \<open>
  \<^verbatim>\<open>generateScheduledSessionStartDatesEndlessly\<close> together with the loop that consumes
  it. \<open>weekOffset = 0\<close> is the first week, where negative offsets are skipped; when the
  offsets of a week are used up the next week starts. The loop returns at the first date
  that is after \<open>latestMoment\<close>; if no such date is ever produced it never returns, which
  is the value \<open>None\<close>. The caller collects the sessions into an array, so that it has
  them only once the loop has returned.
\<close>

partial_function (option) generateScheduledSessionStartDates ::
  "moment \<Rightarrow> moment \<Rightarrow> int option list \<Rightarrow> int \<Rightarrow> int option list \<Rightarrow> moment list option" where
  "generateScheduledSessionStartDates earliestMoment latestMoment isoWeekdayOffsets weekOffset pending =
     (case pending of
        [] \<Rightarrow> generateScheduledSessionStartDates earliestMoment latestMoment isoWeekdayOffsets
                (weekOffset + 1) isoWeekdayOffsets
      | isoWeekdayOffset # rest \<Rightarrow>
          if weekOffset = 0 \<and> isNegative isoWeekdayOffset
          then generateScheduledSessionStartDates earliestMoment latestMoment isoWeekdayOffsets
                 weekOffset rest
          else if isAfter (addDays earliestMoment (daysFromEarliest weekOffset isoWeekdayOffset))
                    latestMoment
          then Some []
          else Option.bind
                 (generateScheduledSessionStartDates earliestMoment latestMoment isoWeekdayOffsets
                    weekOffset rest)
                 (\<lambda>dates. Some (addDays earliestMoment
                                   (daysFromEarliest weekOffset isoWeekdayOffset) # dates)))"

declare generateScheduledSessionStartDates.simps [code]

record ScheduledSession =
  sessionId :: string
  sessionStartDate :: moment
  sessionEndDate :: moment
  sessionDuration :: "json option"

definition makeScheduledSession ::
  "(int \<Rightarrow> string) \<Rightarrow> MinimalEventSchedule \<Rightarrow> moment \<Rightarrow> ScheduledSession" where
  "makeScheduledSession formatUtc eventSchedule scheduledSessionStartDate =
     \<lparr> sessionId = replace (idTemplate eventSchedule) ''{startDate}''
                     (formatMoment formatUtc scheduledSessionStartDate),
       sessionStartDate = scheduledSessionStartDate,
       sessionEndDate = combineYYYYMMDDAndHHMMString (formatYYYYMMDD scheduledSessionStartDate)
                          (endTime eventSchedule),
       sessionDuration = duration eventSchedule \<rparr>"

definition latestMomentOf :: "int \<Rightarrow> MinimalEventSchedule \<Rightarrow> moment" where
  "latestMomentOf nowMoment eventSchedule =
     (let timeWindowEndDate = addWeeks (Moment nowMoment) SCHEDULE_TIME_WINDOW_IN_WEEKS
      in case endDate eventSchedule of
           None \<Rightarrow> timeWindowEndDate
         | Some d \<Rightarrow>
             let scheduleEndDate = combineYYYYMMDDAndHHMMString d (startTime eventSchedule)
             in if isBefore timeWindowEndDate scheduleEndDate then timeWindowEndDate
                else scheduleEndDate)"

definition earliestMomentOf :: "int \<Rightarrow> MinimalEventSchedule \<Rightarrow> moment" where
  "earliestMomentOf nowMoment eventSchedule =
     (let todayWithStartTimeMoment =
            combineYYYYMMDDAndHHMMString (formatYYYYMMDD (Moment nowMoment))
              (startTime eventSchedule);
          nextStartTimeAfterNowMoment =
            (if isBefore todayWithStartTimeMoment (Moment nowMoment)
             then addDays todayWithStartTimeMoment (Some 1)
             else todayWithStartTimeMoment)
      in case startDate eventSchedule of
           None \<Rightarrow> nextStartTimeAfterNowMoment
         | Some d \<Rightarrow>
             let scheduleStartDate = combineYYYYMMDDAndHHMMString d (startTime eventSchedule)
             in if isAfter nextStartTimeAfterNowMoment scheduleStartDate
                then nextStartTimeAfterNowMoment
                else scheduleStartDate)"

text \<open>
  The weekday offsets. \<^verbatim>\<open>sort()\<close> without a comparator orders by the decimal text of the
  numbers, which for the weekdays 1 to 7 is their numeric order and puts \<^verbatim>\<open>NaN\<close> behind
  them. The difference of two weekdays, and its remainder, is \<^verbatim>\<open>NaN\<close> when one of them
  is.
\<close>

fun sortKey :: "int option \<Rightarrow> int" where
  "sortKey (Some n) = n"
| "sortKey None = 8"

fun offsetFromEarliest :: "int option \<Rightarrow> int option \<Rightarrow> int option" where
  "offsetFromEarliest (Some earliestIsoWeekday) (Some isoWeekday') =
     Some (jsRemainder (isoWeekday' - earliestIsoWeekday) 7)"
| "offsetFromEarliest earliestIsoWeekday isoWeekday' = None"

definition isoWeekdayOffsetsOf :: "moment \<Rightarrow> MinimalEventSchedule \<Rightarrow> int option list" where
  "isoWeekdayOffsetsOf earliestMoment eventSchedule =
     map (offsetFromEarliest (isoWeekday earliestMoment))
       (sort_key sortKey (getIsoWeekdays eventSchedule))"

definition generateDatesWithinTimeWindow ::
  "(int \<Rightarrow> string) \<Rightarrow> int \<Rightarrow> MinimalEventSchedule \<Rightarrow> ScheduledSession list option" where
  "generateDatesWithinTimeWindow formatUtc nowMoment eventSchedule =
     (let latestMoment = latestMomentOf nowMoment eventSchedule;
          earliestMoment = earliestMomentOf nowMoment eventSchedule
      in if isAfter earliestMoment latestMoment then Some []
         else
           let isoWeekdayOffsets = isoWeekdayOffsetsOf earliestMoment eventSchedule
           in map_option (map (makeScheduledSession formatUtc eventSchedule))
                (generateScheduledSessionStartDates earliestMoment latestMoment
                   isoWeekdayOffsets 0 isoWeekdayOffsets))"

section \<open>Fetching a page: \<open>getFirehosePage\<close>\<close>

text \<open>
  The HTTP exchange itself is an input: the status and the parsed body of the response.
  \<^verbatim>\<open>validateStatus\<close> makes the request fail for every status but 2xx and 404.
\<close>

record response =
  status :: int
  body :: json

record firehosePage =
  nextNextUrl :: string
  items :: "json list"

definition validateStatus :: "int \<Rightarrow> bool" where
  "validateStatus st \<longleftrightarrow> (200 \<le> st \<and> st < 300) \<or> st = 404"

text \<open>The test handed to \<^verbatim>\<open>findIndex\<close>.\<close>

definition invalidItem :: "json \<Rightarrow> bool" where
  "invalidItem item \<longleftrightarrow>
     \<not> truthy item \<or>
     (getProp item ''state'' \<noteq> JStr ''updated'' \<and> getProp item ''state'' \<noteq> JStr ''deleted'')"

text \<open>
  A validation error carries the fixed part of its message and the value the message
  prints.
\<close>

definition getFirehosePage :: "string \<Rightarrow> response \<Rightarrow> error + firehosePage" where
  "getFirehosePage pageUrl rpdePage =
     (if \<not> validateStatus (status rpdePage) then Inl AxiosError
      else if status rpdePage = 404 then Inl (Http404Error pageUrl)
      else if nullish (body rpdePage) then Inl TypeError
      else
        case getProp (body rpdePage) ''next'' of
          JStr next \<Rightarrow>
            if next = []
            then Inl (IminValidationError ''RPDE .next should be a non-empty string'' (JStr next))
            else
              (case getProp (body rpdePage) ''items'' of
                 JArr pageItems \<Rightarrow>
                   let invalidItemIndex = findIndex invalidItem pageItems
                   in if invalidItemIndex > 0
                      then
                        let invalidItem' = pageItems ! nat invalidItemIndex;
                            invalidItemId = jsAnd invalidItem' (getProp invalidItem' ''id'')
                        in Inl (IminValidationError
                                  ''item should be non-null and have state=updated|deleted''
                                  (JObj [(''index'', JNum (real_of_int invalidItemIndex)),
                                         (''id'', invalidItemId)]))
                      else Inr \<lparr> nextNextUrl = next, items = pageItems \<rparr>
               | v \<Rightarrow> Inl (IminValidationError ''RPDE .items should be an array'' v))
        | v \<Rightarrow> Inl (IminValidationError ''RPDE .next should be a non-empty string'' v))"

section \<open>Segments: \<open>generateSegmentIdentifiersForMergedScheduledSession\<close>\<close>

text \<open>
  A segment of the configuration. The version of the program that has no attendance mode
  filter does not read that field.
\<close>

record segment =
  segmentIdentifier :: string
  latitude :: real
  longitude :: real
  radius :: real
  attendanceModeFilter :: string

definition getEventsEventAttendanceMode :: "json \<Rightarrow> json" where
  "getEventsEventAttendanceMode item =
     jsOr (getProp item ''eventAttendanceMode'')
       (JStr ''https://schema.org/OfflineEventAttendanceMode'')"

definition doesEventSupportOnline :: "json \<Rightarrow> bool" where
  "doesEventSupportOnline item \<longleftrightarrow>
     getEventsEventAttendanceMode item \<in>
       set [JStr ''https://schema.org/OnlineEventAttendanceMode'',
            JStr ''https://schema.org/MixedEventAttendanceMode'']"

definition doesEventSupportOffline :: "json \<Rightarrow> bool" where
  "doesEventSupportOffline item \<longleftrightarrow>
     getEventsEventAttendanceMode item \<in>
       set [JStr ''https://schema.org/OfflineEventAttendanceMode'',
            JStr ''https://schema.org/MixedEventAttendanceMode'']"

text \<open>\<^verbatim>\<open>Array.prototype.filter\<close> with a test that may throw: the first throw ends it.\<close>

fun filterE :: "('a \<Rightarrow> error + bool) \<Rightarrow> 'a list \<Rightarrow> error + 'a list" where
  "filterE f [] = Inr []"
| "filterE f (x # xs) =
     (case f x of
        Inl e \<Rightarrow> Inl e
      | Inr keep \<Rightarrow>
          (case filterE f xs of
             Inl e \<Rightarrow> Inl e
           | Inr ys \<Rightarrow> Inr (if keep then x # ys else ys)))"

text \<open>The first filter: the \<^verbatim>\<open>switch\<close> on the segment's \<^verbatim>\<open>attendanceModeFilter\<close>.\<close>

definition attendanceModeMatches :: "bool \<Rightarrow> bool \<Rightarrow> segment \<Rightarrow> error + bool" where
  "attendanceModeMatches doesSupportOnline doesSupportOffline seg =
     (if attendanceModeFilter seg = ''all'' then Inr True
      else if attendanceModeFilter seg = ''physical-only'' then Inr doesSupportOffline
      else if attendanceModeFilter seg = ''virtual-only'' then Inr doesSupportOnline
      else Inl (UnrecognisedAttendanceModeFilter (attendanceModeFilter seg)))"

text \<open>
  The distance test. \<^verbatim>\<open>geolib.getDistance\<close> is a parameter: it takes the latitude and
  longitude found in the item and those of the segment and returns metres. The radius of
  a segment is in kilometres.
\<close>

definition withinRadius ::
  "(json \<Rightarrow> json \<Rightarrow> real \<Rightarrow> real \<Rightarrow> real) \<Rightarrow> json \<Rightarrow> segment \<Rightarrow> bool" where
  "withinRadius distanceFn physicalLocationGeo seg =
     (let segmentRadiusInMeters = jsTimes (radius seg) 1000;
          distanceBetweenGeos =
            distanceFn (getProp physicalLocationGeo ''latitude'')
              (getProp physicalLocationGeo ''longitude'') (latitude seg) (longitude seg)
      in jsLessEq distanceBetweenGeos segmentRadiusInMeters)"

text \<open>The second filter: an item without a location passes it.\<close>

definition withinSegmentRadius ::
  "(json \<Rightarrow> json \<Rightarrow> real \<Rightarrow> real \<Rightarrow> real) \<Rightarrow> json \<Rightarrow> segment \<Rightarrow> bool" where
  "withinSegmentRadius distanceFn physicalLocationGeo seg =
     (if \<not> truthy physicalLocationGeo then True
      else withinRadius distanceFn physicalLocationGeo seg)"

definition generateSegmentIdentifiersForMergedScheduledSession ::
  "(json \<Rightarrow> json \<Rightarrow> real \<Rightarrow> real \<Rightarrow> real) \<Rightarrow> json \<Rightarrow> segment list \<Rightarrow> error + string list" where
  "generateSegmentIdentifiersForMergedScheduledSession distanceFn mergedScheduledSession segments =
     (if nullish mergedScheduledSession then Inl TypeError
      else
        let location = getProp mergedScheduledSession ''location'';
            affiliatedLocation = getProp mergedScheduledSession ''beta:affiliatedLocation'';
            physicalLocationGeo =
              jsOr (jsAnd location (getProp location ''geo''))
                (jsAnd affiliatedLocation (getProp affiliatedLocation ''geo''));
            doesSupportOnline = doesEventSupportOnline mergedScheduledSession;
            doesSupportOffline = doesEventSupportOffline mergedScheduledSession
        in if \<not> truthy physicalLocationGeo \<and> doesSupportOffline then Inr []
           else
             case filterE (attendanceModeMatches doesSupportOnline doesSupportOffline) segments of
               Inl e \<Rightarrow> Inl e
             | Inr matching \<Rightarrow>
                 Inr (map segmentIdentifier
                        (filter (withinSegmentRadius distanceFn physicalLocationGeo) matching)))"


section \<open>The output directory\<close>

text \<open>
  The files the program reads back are the JSON files, named by a hash:
  \<^verbatim>\<open>sessionseries/<hash>.json\<close> and \<^verbatim>\<open>segments/<segment>/<name>.json\<close>, where the name is
  a hash or \<^verbatim>\<open>model\<close>. Segment identifiers are taken to be plain directory names, so
  that different arguments give different paths. The index file of a segment and the log
  are only appended to; they are kept as the list of the pieces appended.
\<close>

datatype path =
    SessionSeriesFile string
  | ScheduledSessionFile string string

record fsState =
  files :: "path \<Rightarrow> json option"
  indexFiles :: "string \<Rightarrow> string list"
  logged :: "(string \<times> string) list"

text \<open>
  What the program takes from libraries and from the clock: the SHA-1 digest, the distance
  of \<^verbatim>\<open>geolib\<close>, the merge into \<^verbatim>\<open>model.json\<close> (built on \<^verbatim>\<open>deepmerge\<close>), the text a
  template literal prints for a number, an array or an object, and the parsing, printing
  and reading of times by \<^verbatim>\<open>moment\<close>: the wall-clock time now in a timezone, the day number
  that a date text denotes and the milliseconds since midnight that a time text denotes
  (\<open>None\<close> when the text does not parse), the UTC text of a wall-clock time in a
  timezone, the moment that \<^verbatim>\<open>moment(v)\<close> makes of a value of the feed (invalid when the
  value is no date), and the instant now.
\<close>

record env =
  hashString :: "string \<Rightarrow> string"
  getDistance :: "json \<Rightarrow> json \<Rightarrow> real \<Rightarrow> real \<Rightarrow> real"
  mergeToModel :: "json \<Rightarrow> json \<Rightarrow> json"
  stringOf :: "json \<Rightarrow> string"
  nowIn :: "json \<Rightarrow> int"
  parseDate :: "json \<Rightarrow> int option"
  parseTime :: "json \<Rightarrow> nat option"
  utcFormat :: "json \<Rightarrow> int \<Rightarrow> string"
  momentOf :: "json \<Rightarrow> moment"
  now :: int

definition readJsonNullIfNotExists :: "fsState \<Rightarrow> path \<Rightarrow> json" where
  "readJsonNullIfNotExists st filePath =
     (case files st filePath of None \<Rightarrow> JNull | Some v \<Rightarrow> v)"

definition writeJson :: "path \<Rightarrow> json \<Rightarrow> fsState \<Rightarrow> fsState" where
  "writeJson filePath v st = st\<lparr> files := (files st)(filePath \<mapsto> v) \<rparr>"

definition appendIndexFile :: "string \<Rightarrow> string \<Rightarrow> fsState \<Rightarrow> fsState" where
  "appendIndexFile segmentId entry st =
     st\<lparr> indexFiles := (indexFiles st)(segmentId := indexFiles st segmentId @ [entry]) \<rparr>"

text \<open>\<^verbatim>\<open>log(level, message)\<close>, with the log file path set.\<close>

definition log_msg :: "string \<Rightarrow> string \<Rightarrow> fsState \<Rightarrow> fsState" where
  "log_msg level message st = st\<lparr> logged := logged st @ [(level, message)] \<rparr>"

text \<open>The text of a value inside a template literal.\<close>

definition templateString :: "env \<Rightarrow> json \<Rightarrow> string" where
  "templateString e v =
     (case v of
        JStr s \<Rightarrow> s
      | JUndefined \<Rightarrow> ''undefined''
      | JNull \<Rightarrow> ''null''
      | JBool b \<Rightarrow> (if b then ''true'' else ''false'')
      | _ \<Rightarrow> stringOf e v)"

text \<open>The characters \<^verbatim>\<open>"\<close> and \<^verbatim>\<open>\r\n\<close> of the index entries.\<close>

definition doubleQuote :: string where
  "doubleQuote = [CHR 0x22]"

definition CRLF :: string where
  "CRLF = [CHR 0x0D, CHR 0x0A]"

text \<open>The three warnings about two ids with one hash, as the template literals build them.\<close>

definition sessionSeriesHashClashWarning :: "string \<Rightarrow> string \<Rightarrow> string \<Rightarrow> string" where
  "sessionSeriesHashClashWarning existingId receivedId idHash =
     ''Already downloaded SessionSeries:'' @ existingId @
     '' and newly received SessionSeries: '' @ receivedId @
     '' are not the same despite having the same hash: '' @ idHash"

definition scheduledSessionHashClashWarning :: "string \<Rightarrow> string \<Rightarrow> string \<Rightarrow> string" where
  "scheduledSessionHashClashWarning existingId receivedId idHash =
     ''Already downloaded ScheduledSession:'' @ existingId @
     '' and newly received ScheduledSession: '' @ receivedId @
     '' are not the same despite having the same hash: '' @ idHash"


text \<open>A loop whose body may throw: the first throw ends it.\<close>

fun forEachE :: "('s \<Rightarrow> 'a \<Rightarrow> error + 's) \<Rightarrow> 'a list \<Rightarrow> 's \<Rightarrow> error + 's" where
  "forEachE f [] st = Inr st"
| "forEachE f (x # xs) st =
     (case f st x of
        Inl e \<Rightarrow> Inl e
      | Inr st' \<Rightarrow> forEachE f xs st')"

text \<open>\<^verbatim>\<open>for (const x of v)\<close>: an array gives its elements, a string its characters.\<close>

definition iterate :: "json \<Rightarrow> error + json list" where
  "iterate v =
     (case v of
        JArr xs \<Rightarrow> Inr xs
      | JStr s \<Rightarrow> Inr (map (\<lambda>c. JStr [c]) s)
      | _ \<Rightarrow> Inl TypeError)"

section \<open>Merging and writing a ScheduledSession\<close>

definition mergeIntoModelExample :: "env \<Rightarrow> path \<Rightarrow> json \<Rightarrow> fsState \<Rightarrow> fsState" where
  "mergeIntoModelExample e modelFilePath dataInstance st =
     (let existingModel = readJsonNullIfNotExists st modelFilePath;
          existingModel' = (if \<not> truthy existingModel then JObj [] else existingModel);
          newModel = mergeToModel e existingModel' dataInstance
      in writeJson modelFilePath newModel st)"

text \<open>
  The object literal that opens \<^verbatim>\<open>mergeScheduledSessionAndSessionSeriesAndWrite\<close>. The
  SessionSeries and the ScheduledSession data are objects, by their types and at both
  call sites.
\<close>

definition mergedScheduledSessionDataOf :: "json \<Rightarrow> json \<Rightarrow> (string \<times> json) list" where
  "mergedScheduledSessionDataOf scheduledSessionData sessionSeries =
     spread
       (spread
          (spread
             (spread [] (entriesOf (getProp sessionSeries ''superEvent'')))
             (AList.delete ''superEvent'' (entriesOf sessionSeries)))
          (entriesOf scheduledSessionData))
       [(''name'',
         jsOr
           (jsOr
              (jsAnd (getProp sessionSeries ''superEvent'')
                 (getProp (getProp sessionSeries ''superEvent'') ''name''))
              (getProp sessionSeries ''name''))
           (getProp scheduledSessionData ''name''))]"

text \<open>One pass of the loop over the segments of the SessionSeries.\<close>

definition writeScheduledSessionToSegment ::
  "env \<Rightarrow> (string \<times> json) list \<Rightarrow> string \<Rightarrow> fsState \<Rightarrow> json \<Rightarrow> error + fsState" where
  "writeScheduledSessionToSegment e mergedScheduledSessionData scheduledSessionIdHash st segmentId =
     (case segmentId of
        JStr seg \<Rightarrow>
          let scheduledSessionFilePath = ScheduledSessionFile seg scheduledSessionIdHash;
              modelFilePath = ScheduledSessionFile seg ''model'';
              existingScheduledSession = readJsonNullIfNotExists st scheduledSessionFilePath;
              isExistingScheduledSession = truthy existingScheduledSession
          in if isExistingScheduledSession \<and>
                getProp existingScheduledSession ''id'' \<noteq>
                  getProp (JObj mergedScheduledSessionData) ''id''
             then
               Inr (log_msg ''warn''
                      (scheduledSessionHashClashWarning
                         (templateString e (getProp existingScheduledSession ''id''))
                         (templateString e (getProp (JObj mergedScheduledSessionData) ''id''))
                         scheduledSessionIdHash)
                      st)
             else
               let st1 = writeJson scheduledSessionFilePath (JObj mergedScheduledSessionData) st;
                   st2 = mergeIntoModelExample e modelFilePath (JObj mergedScheduledSessionData) st1
               in if \<not> isExistingScheduledSession
                  then Inr (appendIndexFile seg
                              (''<a href='' @ doubleQuote @ scheduledSessionIdHash @ ''.json'' @
                               doubleQuote @ ''>link</a>'' @ CRLF)
                              st2)
                  else Inr st2
      | _ \<Rightarrow> Inl TypeError)"

definition mergeScheduledSessionAndSessionSeriesAndWrite ::
  "env \<Rightarrow> json \<Rightarrow> json \<Rightarrow> fsState \<Rightarrow> error + fsState" where
  "mergeScheduledSessionAndSessionSeriesAndWrite e scheduledSessionData sessionSeries st =
     (let mergedScheduledSessionData =
            mergedScheduledSessionDataOf scheduledSessionData sessionSeries
      in case getProp (JObj mergedScheduledSessionData) ''id'' of
           JStr mergedId \<Rightarrow>
             let scheduledSessionIdHash = hashString e mergedId;
                 mergedScheduledSessionData' =
                   AList.update ''imin:fileIdentifier'' (JStr scheduledSessionIdHash)
                     mergedScheduledSessionData
             in (case iterate (getProp sessionSeries ''imin:segment'') of
                   Inl err \<Rightarrow> Inl err
                 | Inr segmentIds \<Rightarrow>
                     forEachE
                       (writeScheduledSessionToSegment e mergedScheduledSessionData'
                          scheduledSessionIdHash)
                       segmentIds st)
         | _ \<Rightarrow> Inl TypeError)"


section \<open>Processing SessionSeries items\<close>

definition SCHEDULE_TYPE :: string where
  "SCHEDULE_TYPE = ''Schedule''"

text \<open>
  \<^verbatim>\<open>MINIMAL_EVENT_SCHEDULE_SCHEMA\<close>, as a test: \<open>True\<close> when the validation reports no
  error. \<^verbatim>\<open>Joi.string()\<close> accepts a string that is not empty.
\<close>

fun nonEmptyString :: "json \<Rightarrow> bool" where
  "nonEmptyString (JStr s) = (s \<noteq> [])"
| "nonEmptyString v = False"

definition MINIMAL_EVENT_SCHEDULE_SCHEMA :: "json \<Rightarrow> bool" where
  "MINIMAL_EVENT_SCHEDULE_SCHEMA eventSchedule \<longleftrightarrow>
     (case getProp eventSchedule ''byDay'' of
        JArr days \<Rightarrow> days \<noteq> [] \<and> list_all nonEmptyString days
      | _ \<Rightarrow> False) \<and>
     nonEmptyString (getProp eventSchedule ''startTime'') \<and>
     nonEmptyString (getProp eventSchedule ''endTime'') \<and>
     nonEmptyString (getProp eventSchedule ''idTemplate'')"

fun stringOfJStr :: "json \<Rightarrow> string" where
  "stringOfJStr (JStr s) = s"
| "stringOfJStr v = []"

definition getScheduleTimezone :: "json \<Rightarrow> json" where
  "getScheduleTimezone eventSchedule =
     jsOr (getProp eventSchedule ''scheduleTimezone'') (JStr ''Europe/London'')"

text \<open>
  The fields of an event schedule, read and parsed as the generator does. A schedule
  reaches the generator only after the schema has been checked, so that its \<open>idTemplate\<close>
  and the entries of its \<open>byDay\<close> are strings.
\<close>

definition toMinimalEventSchedule :: "env \<Rightarrow> json \<Rightarrow> MinimalEventSchedule" where
  "toMinimalEventSchedule e eventSchedule =
     \<lparr> byDay =
         (case getProp eventSchedule ''byDay'' of
            JArr days \<Rightarrow> Some (map stringOfJStr days)
          | _ \<Rightarrow> None),
       startTime = parseTime e (getProp eventSchedule ''startTime''),
       endTime = parseTime e (getProp eventSchedule ''endTime''),
       startDate =
         (if truthy (getProp eventSchedule ''startDate'')
          then Some (parseDate e (getProp eventSchedule ''startDate'')) else None),
       endDate =
         (if truthy (getProp eventSchedule ''endDate'')
          then Some (parseDate e (getProp eventSchedule ''endDate'')) else None),
       duration =
         (if truthy (getProp eventSchedule ''duration'')
          then Some (getProp eventSchedule ''duration'') else None),
       idTemplate = stringOfJStr (getProp eventSchedule ''idTemplate'') \<rparr>"

text \<open>The object that the generator yields for one session.\<close>

definition scheduledSessionToJson :: "env \<Rightarrow> json \<Rightarrow> ScheduledSession \<Rightarrow> json" where
  "scheduledSessionToJson e timezone session =
     JObj ([(''type'', JStr ''ScheduledSession''),
            (''id'', JStr (sessionId session)),
            (''startDate'',
             JStr (formatMoment (utcFormat e timezone) (sessionStartDate session))),
            (''endDate'',
             JStr (formatMoment (utcFormat e timezone) (sessionEndDate session)))] @
           (case sessionDuration session of
              None \<Rightarrow> []
            | Some d \<Rightarrow> [(''duration'', d)]))"

text \<open>
  The call of the generator for one schedule. The generator first reads the current time
  in the timezone of the schedule; a timezone name that is not a string makes
  \<^verbatim>\<open>moment-timezone\<close> throw.
\<close>

definition generateScheduledSessions :: "env \<Rightarrow> json \<Rightarrow> (error + json list) option" where
  "generateScheduledSessions e eventSchedule =
     (let scheduleTimezone = getScheduleTimezone eventSchedule
      in case scheduleTimezone of
           JStr zoneName \<Rightarrow>
             map_option (\<lambda>sessions. Inr (map (scheduledSessionToJson e scheduleTimezone) sessions))
               (generateDatesWithinTimeWindow (utcFormat e scheduleTimezone)
                  (nowIn e scheduleTimezone) (toMinimalEventSchedule e eventSchedule))
         | _ \<Rightarrow> Some (Inl (TimeZoneNameError scheduleTimezone)))"

text \<open>
  The loop over \<^verbatim>\<open>eventSchedule\<close>: the corrected schedules and the generated sessions. It
  does not return (\<open>None\<close>) as soon as the generator does not, and it ends with the first
  error thrown.
\<close>

fun validateAndGenerate :: "env \<Rightarrow> json list \<Rightarrow> (error + json list \<times> json list) option" where
  "validateAndGenerate e [] = Some (Inr ([], []))"
| "validateAndGenerate e (eventSchedule # rest) =
     (if nullish eventSchedule then Some (Inl TypeError)
      else if getProp eventSchedule ''type'' \<noteq> JStr SCHEDULE_TYPE
      then validateAndGenerate e rest
      else if \<not> MINIMAL_EVENT_SCHEDULE_SCHEMA eventSchedule
      then
        (case validateAndGenerate e rest of
           None \<Rightarrow> None
         | Some (Inl err) \<Rightarrow> Some (Inl err)
         | Some (Inr (corrected, sessions)) \<Rightarrow>
             Some (Inr (JObj (spread (spread [] (entriesOf eventSchedule))
                                [(''type'', JStr ''PartialSchedule'')]) # corrected,
                        sessions)))
      else
        (case generateScheduledSessions e eventSchedule of
           None \<Rightarrow> None
         | Some (Inl err) \<Rightarrow> Some (Inl err)
         | Some (Inr generated) \<Rightarrow>
             (case validateAndGenerate e rest of
                None \<Rightarrow> None
              | Some (Inl err) \<Rightarrow> Some (Inl err)
              | Some (Inr (corrected, sessions)) \<Rightarrow>
                  Some (Inr (eventSchedule # corrected, generated @ sessions)))))"

text \<open>The geographic coordinate of a SessionSeries, or \<open>None\<close> where the loop continues.\<close>

definition sessionSeriesPhysicalLocationGeoOf :: "json \<Rightarrow> json option" where
  "sessionSeriesPhysicalLocationGeoOf itemData =
     (if truthy (getProp itemData ''location'') \<and>
         truthy (getProp (getProp itemData ''location'') ''geo'')
      then Some (getProp (getProp itemData ''location'') ''geo'')
      else if truthy (getProp itemData ''beta:affiliatedLocation'') \<and>
              truthy (getProp (getProp itemData ''beta:affiliatedLocation'') ''geo'')
      then Some (getProp (getProp itemData ''beta:affiliatedLocation'') ''geo'')
      else None)"

record preparedSessionSeries =
  sessionSeriesData :: "(string \<times> json) list"
  correctedEventSchedules :: "json list"
  scheduledSessionsForEveryEventSchedule :: "json list"

text \<open>
  The loop body of \<^verbatim>\<open>processSessionSeriesItems\<close> up to the point where it turns to the
  files: \<open>Some (Inr None)\<close> where the loop continues with the next item,
  \<open>Some (Inr (Some p))\<close> with what is to be written.
\<close>

definition prepareSessionSeries ::
  "env \<Rightarrow> segment list \<Rightarrow> json \<Rightarrow> (error + preparedSessionSeries option) option" where
  "prepareSessionSeries e segments item =
     (if nullish item then Some (Inl TypeError)
      else if getProp item ''state'' = JStr ''deleted'' then Some (Inr None)
      else if \<not> truthy (getProp item ''id'') then Some (Inr None)
      else if nullish (getProp item ''data'') then Some (Inl TypeError)
      else
        case sessionSeriesPhysicalLocationGeoOf (getProp item ''data'') of
          None \<Rightarrow> Some (Inr None)
        | Some sessionSeriesPhysicalLocationGeo \<Rightarrow>
            let itemData = getProp item ''data''
            in if truthy (jsOr (getProp itemData ''beta:presentAsSlots'')
                            (jsAnd (getProp itemData ''superEvent'')
                               (getProp (getProp itemData ''superEvent'') ''beta:presentAsSlots'')))
               then Some (Inr None)
               else
                 let segmentIds =
                       map segmentIdentifier
                         (filter (withinRadius (getDistance e) sessionSeriesPhysicalLocationGeo)
                            segments);
                     seriesData =
                       spread (spread [] (entriesOf itemData))
                         [(''imin:segment'', JArr (map JStr segmentIds))]
                 in if segmentIds = [] then Some (Inr None)
                    else
                      (case (case getProp (JObj seriesData) ''eventSchedule'' of
                               JArr eventSchedules \<Rightarrow> validateAndGenerate e eventSchedules
                             | _ \<Rightarrow> Some (Inr ([], []))) of
                         None \<Rightarrow> None
                       | Some (Inl err) \<Rightarrow> Some (Inl err)
                       | Some (Inr (corrected, sessions)) \<Rightarrow>
                           Some (Inr (Some \<lparr> sessionSeriesData = seriesData,
                                              correctedEventSchedules = corrected,
                                              scheduledSessionsForEveryEventSchedule = sessions \<rparr>))))"

text \<open>The rest of the loop body: the SessionSeries file and the generated sessions.\<close>

definition persistSessionSeries ::
  "env \<Rightarrow> json \<Rightarrow> preparedSessionSeries \<Rightarrow> fsState \<Rightarrow> error + fsState" where
  "persistSessionSeries e item prepared st =
     (let sessionSeriesDataWithCorrectedEventSchedules =
            spread (sessionSeriesData prepared)
              [(''eventSchedule'', JArr (correctedEventSchedules prepared))]
      in case getProp item ''id'' of
           JStr itemId \<Rightarrow>
             let sessionSeriesIdHash = hashString e itemId;
                 sessionSeriesFilePath = SessionSeriesFile sessionSeriesIdHash;
                 existingSessionSeries = readJsonNullIfNotExists st sessionSeriesFilePath
             in if truthy existingSessionSeries \<and>
                   getProp existingSessionSeries ''id'' \<noteq> JStr itemId
                then
                  Inr (log_msg ''warn''
                         (sessionSeriesHashClashWarning
                            (templateString e (getProp existingSessionSeries ''id''))
                            itemId sessionSeriesIdHash)
                         st)
                else
                  forEachE
                    (\<lambda>st' generatedScheduledSession.
                       mergeScheduledSessionAndSessionSeriesAndWrite e generatedScheduledSession
                         (JObj (sessionSeriesData prepared)) st')
                    (scheduledSessionsForEveryEventSchedule prepared)
                    (writeJson sessionSeriesFilePath
                       (JObj sessionSeriesDataWithCorrectedEventSchedules) st)
         | _ \<Rightarrow> Inl TypeError)"

definition processSessionSeriesItem ::
  "env \<Rightarrow> segment list \<Rightarrow> fsState \<Rightarrow> json \<Rightarrow> (error + fsState) option" where
  "processSessionSeriesItem e segments st item =
     (case prepareSessionSeries e segments item of
        None \<Rightarrow> None
      | Some (Inl err) \<Rightarrow> Some (Inl err)
      | Some (Inr None) \<Rightarrow> Some (Inr st)
      | Some (Inr (Some prepared)) \<Rightarrow> Some (persistSessionSeries e item prepared st))"

fun processSessionSeriesItems ::
  "env \<Rightarrow> segment list \<Rightarrow> json list \<Rightarrow> fsState \<Rightarrow> (error + fsState) option" where
  "processSessionSeriesItems e segments [] st = Some (Inr st)"
| "processSessionSeriesItems e segments (item # rest) st =
     (case processSessionSeriesItem e segments st item of
        None \<Rightarrow> None
      | Some (Inl err) \<Rightarrow> Some (Inl err)
      | Some (Inr st') \<Rightarrow> processSessionSeriesItems e segments rest st')"

section \<open>Processing ScheduledSession items\<close>





section \<open>Weekday derivation, in the words of its description\<close>

text \<open>
  The English weekday names in the order Monday to Sunday, each with its ISO weekday
  number; the first of them that occurs somewhere in an entry; and the list derived from
  the entries of \<open>byDay\<close>: one weekday for each entry that names one, in the order of the
  entries, nothing for an entry that names none.
\<close>

definition weekdayNames :: "(string \<times> int) list" where
  "weekdayNames = [(''Monday'', 1), (''Tuesday'', 2), (''Wednesday'', 3), (''Thursday'', 4),
     (''Friday'', 5), (''Saturday'', 6), (''Sunday'', 7)]"

definition firstWeekdayNamedIn :: "string \<Rightarrow> int option" where
  "firstWeekdayNamedIn entry =
     map_option snd (find (\<lambda>(name, isoDay). sublist name entry) weekdayNames)"

definition weekdayDerivationSpec :: "string list \<Rightarrow> int list" where
  "weekdayDerivationSpec entries = List.map_filter firstWeekdayNamedIn entries"

section \<open>Dates produced by the generator loop\<close>

text \<open>
  A date that the loop can still produce from week \<open>w\<close> with the offsets \<open>p\<close> pending: it
  belongs to a pending offset of this week or to any offset of a later week.
\<close>

definition laterDate :: "int \<Rightarrow> int list \<Rightarrow> int \<Rightarrow> int list \<Rightarrow> int \<Rightarrow> bool" where
  "laterDate e offs w p d \<longleftrightarrow>
     (\<exists>off\<in>set p. d = plusDays e (w * 7 + off)) \<or>
     (\<exists>w' off'. w < w' \<and> off' \<in> set offs \<and> d = plusDays e (w' * 7 + off'))"

section \<open>Example inputs\<close>

text \<open>
  A schedule that passes the structural validation and whose only \<open>byDay\<close> entry names no
  weekday: 10:00 to 11:00, no start or end date.
\<close>

definition unrecognisedDaySchedule :: MinimalEventSchedule where
  "unrecognisedDaySchedule = \<lparr> byDay = Some [''Someday''], startTime = Some 36000000,
     endTime = Some 39600000, startDate = None, endDate = None, duration = None,
     idTemplate = ''evt-{startDate}'' \<rparr>"

text \<open>
  A schedule that names Monday twice, 18:00 to 19:00, ending on 2024-01-08 (day 19730), and
  a schedule whose entries name weekdays in several ways. The current time of the examples
  is Thursday 2024-01-04 10:00, which is 1704362400000; the one instant the first example
  produces is Monday 2024-01-08 18:00, which is 1704736800000.
\<close>

definition mondayTwiceSchedule :: MinimalEventSchedule where
  "mondayTwiceSchedule = \<lparr> byDay = Some [''https://schema.org/Monday'', ''Monday''],
     startTime = Some 64800000, endTime = Some 68400000, startDate = None,
     endDate = Some (Some 19730), duration = None, idTemplate = ''evt-{startDate}'' \<rparr>"

definition mixedByDaySchedule :: MinimalEventSchedule where
  "mixedByDaySchedule = \<lparr> byDay = Some [''https://schema.org/Monday'', ''Sunday or Tuesday'',
       ''Someday'', ''Monday''],
     startTime = Some 64800000, endTime = Some 68400000, startDate = None, endDate = None,
     duration = None, idTemplate = ''evt-{startDate}'' \<rparr>"

definition exampleUtcFormat :: "int \<Rightarrow> string" where
  "exampleUtcFormat m =
     (if m = 1704736800000 then ''2024-01-08T18:00:00Z'' else ''(another instant)'')"

text \<open>
  The schedule of Mondays and Wednesdays, 18:00 to 19:00, that ends on 2024-01-10 (day
  19732), and the schedule of Mondays whose \<open>endDate\<close> is no date.
\<close>

definition mondayWednesdaySchedule :: MinimalEventSchedule where
  "mondayWednesdaySchedule = \<lparr> byDay = Some [''Monday'', ''Wednesday''],
     startTime = Some 64800000, endTime = Some 68400000, startDate = None,
     endDate = Some (Some 19732), duration = None, idTemplate = ''evt-{startDate}'' \<rparr>"

definition unparsableEndDateSchedule :: MinimalEventSchedule where
  "unparsableEndDateSchedule = \<lparr> byDay = Some [''Monday''],
     startTime = Some 64800000, endTime = Some 68400000, startDate = None,
     endDate = Some None, duration = None, idTemplate = ''evt-{startDate}'' \<rparr>"

text \<open>
  Stand-ins for the library functions, for the examples: a digest that is visibly a
  function of its argument, every coordinate at distance 0, a merge into the model that
  keeps the new data, a clock that reads Thursday 2024-01-04 10:00, and a parser that
  knows the date 2024-01-08, the times 18:00 and 19:00 and the instant
  2024-01-08T18:00:00Z and takes every other text for no date.
\<close>

definition exampleHash :: "string \<Rightarrow> string" where
  "exampleHash s = ''sha1-of-'' @ s"

definition exampleEnv :: env where
  "exampleEnv = \<lparr> hashString = exampleHash,
     getDistance = (\<lambda>itemLatitude itemLongitude segmentLatitude segmentLongitude. 0),
     mergeToModel = (\<lambda>model dataInstance. dataInstance),
     stringOf = (\<lambda>v. ''[object]''),
     nowIn = (\<lambda>timezone. 1704362400000),
     parseDate = (\<lambda>date. if date = JStr ''2024-01-08'' then Some 19730 else None),
     parseTime = (\<lambda>time. if time = JStr ''18:00'' then Some 64800000
                        else if time = JStr ''19:00'' then Some 68400000 else None),
     utcFormat = (\<lambda>timezone. exampleUtcFormat),
     momentOf = (\<lambda>date. if date = JStr ''2024-01-08T18:00:00Z''
                        then Moment 1704736800000 else InvalidMoment),
     now = 1704362400000 \<rparr>"

definition northSegment :: segment where
  "northSegment = \<lparr> segmentIdentifier = ''north'', latitude = 54, longitude = -2, radius = 10,
     attendanceModeFilter = ''physical-only'' \<rparr>"

definition everywhereSegment :: segment where
  "everywhereSegment = \<lparr> segmentIdentifier = ''everywhere'', latitude = 54, longitude = -2,
     radius = 1000, attendanceModeFilter = ''all'' \<rparr>"

text \<open>A second segment that writes into the directory \<open>north\<close>, open to every item.\<close>

definition northForAllSegment :: segment where
  "northForAllSegment = \<lparr> segmentIdentifier = ''north'', latitude = 54, longitude = -2,
     radius = 10, attendanceModeFilter = ''all'' \<rparr>"

text \<open>Responses whose only invalid item is the first, and is the second.\<close>

definition invalidFirstItemResponse :: response where
  "invalidFirstItemResponse =
     \<lparr> status = 200,
       body = JObj [(''next'', JStr ''https://example.com/feed?afterId=2''),
                    (''items'', JArr [JNull,
                       JObj [(''id'', JStr ''b''), (''state'', JStr ''updated'')]])] \<rparr>"

definition invalidSecondItemResponse :: response where
  "invalidSecondItemResponse =
     \<lparr> status = 200,
       body = JObj [(''next'', JStr ''https://example.com/feed?afterId=2''),
                    (''items'', JArr [JObj [(''id'', JStr ''b''), (''state'', JStr ''updated'')],
                       JNull])] \<rparr>"

text \<open>
  A SessionSeries as it is stored, with a name of its own and one in its superEvent; a
  ScheduledSession of the feed that belongs to it, and one whose \<open>startDate\<close> is no
  date; and an online-only item without a location.
\<close>

definition yogaSeries :: json where
  "yogaSeries = JObj [(''id'', JStr ''series-1''), (''name'', JStr ''Yoga series''),
     (''superEvent'', JObj [(''name'', JStr ''Yoga programme'')]),
     (''imin:segment'', JArr [JStr ''north''])]"

definition yogaSessionData :: json where
  "yogaSessionData = JObj [(''id'', JStr ''occ-1''), (''name'', JStr ''Monday yoga''),
     (''superEvent'', JStr ''series-1''), (''startDate'', JStr ''2024-01-08T18:00:00Z'')]"

definition yogaSessionItem :: json where
  "yogaSessionItem = JObj [(''id'', JStr ''occ-1''), (''state'', JStr ''updated''),
     (''kind'', JStr ''ScheduledSession''), (''data'', yogaSessionData)]"



definition yogaSeriesItem :: json where
  "yogaSeriesItem = JObj [(''id'', JStr ''series-1''), (''state'', JStr ''updated''),
     (''kind'', JStr ''SessionSeries''),
     (''data'', JObj [(''id'', JStr ''series-1''), (''name'', JStr ''Yoga series''),
        (''location'', JObj [(''geo'', JObj [(''latitude'', JNum 54), (''longitude'', JNum (-2))])])])]"

definition onlineSeriesItem :: json where
  "onlineSeriesItem = JObj [(''id'', JStr ''series-2''), (''state'', JStr ''updated''),
     (''kind'', JStr ''SessionSeries''),
     (''data'', JObj [(''id'', JStr ''series-2''), (''name'', JStr ''Online pilates''),
        (''eventAttendanceMode'', JStr ''https://schema.org/OnlineEventAttendanceMode'')])]"

text \<open>
  Two SessionSeries items with a schedule that passes the structural validation: one for
  Mondays that ends on 2024-01-08, one whose only \<open>byDay\<close> entry names no weekday.
\<close>

definition mondayScheduleSeriesItem :: json where
  "mondayScheduleSeriesItem = JObj [(''id'', JStr ''series-3''), (''state'', JStr ''updated''),
     (''kind'', JStr ''SessionSeries''),
     (''data'', JObj [(''id'', JStr ''series-3''), (''name'', JStr ''Monday run''),
        (''location'', JObj [(''geo'', JObj [(''latitude'', JNum 54), (''longitude'', JNum (-2))])]),
        (''eventSchedule'', JArr [JObj [(''type'', JStr ''Schedule''),
           (''byDay'', JArr [JStr ''https://schema.org/Monday'']),
           (''startTime'', JStr ''18:00''), (''endTime'', JStr ''18:00''),
           (''endDate'', JStr ''2024-01-08''),
           (''idTemplate'', JStr ''https://example.com/run/{startDate}'')]])])]"

definition unrecognisedDayEventSchedule :: json where
  "unrecognisedDayEventSchedule = JObj [(''type'', JStr ''Schedule''),
     (''byDay'', JArr [JStr ''Someday'']),
     (''startTime'', JStr ''18:00''), (''endTime'', JStr ''19:00''),
     (''idTemplate'', JStr ''https://example.com/run/{startDate}'')]"

definition unrecognisedDaySeriesItem :: json where
  "unrecognisedDaySeriesItem = JObj [(''id'', JStr ''series-4''), (''state'', JStr ''updated''),
     (''kind'', JStr ''SessionSeries''),
     (''data'', JObj [(''id'', JStr ''series-4''), (''name'', JStr ''Someday run''),
        (''location'', JObj [(''geo'', JObj [(''latitude'', JNum 54), (''longitude'', JNum (-2))])]),
        (''eventSchedule'', JArr [unrecognisedDayEventSchedule])])]"

definition onlineSessionData :: json where
  "onlineSessionData = JObj [(''id'', JStr ''occ-2''),
     (''eventAttendanceMode'', JStr ''https://schema.org/OnlineEventAttendanceMode'')]"

text \<open>
  Output directories: an empty one; one where the file of \<open>occ-1\<close> in segment \<open>north\<close>
  holds an earlier version of \<open>occ-1\<close>; one where it holds another id; and the same two
  for the file of \<open>series-1\<close>, next to the stored series itself.
\<close>

definition emptyOutput :: fsState where
  "emptyOutput = \<lparr> files = Map.empty, indexFiles = (\<lambda>segmentId. []), logged = [] \<rparr>"

definition earlierSession :: json where
  "earlierSession = JObj [(''id'', JStr ''occ-1''), (''name'', JStr ''Earlier name'')]"

definition otherSession :: json where
  "otherSession = JObj [(''id'', JStr ''occ-9''), (''name'', JStr ''Other session'')]"

definition earlierSeries :: json where
  "earlierSeries = JObj [(''id'', JStr ''series-1''), (''name'', JStr ''Earlier series name'')]"

definition otherSeries :: json where
  "otherSeries = JObj [(''id'', JStr ''series-9''), (''name'', JStr ''Other series'')]"

definition outputWithEarlierSession :: fsState where
  "outputWithEarlierSession =
     writeJson (ScheduledSessionFile ''north'' (exampleHash ''occ-1'')) earlierSession emptyOutput"

definition outputWithOtherSession :: fsState where
  "outputWithOtherSession =
     writeJson (ScheduledSessionFile ''north'' (exampleHash ''occ-1'')) otherSession emptyOutput"

definition outputWithEarlierSeries :: fsState where
  "outputWithEarlierSeries =
     writeJson (SessionSeriesFile (exampleHash ''series-1'')) earlierSeries emptyOutput"

definition outputWithOtherSeries :: fsState where
  "outputWithOtherSeries =
     writeJson (SessionSeriesFile (exampleHash ''series-1'')) otherSeries emptyOutput"

definition outputWithYogaSeries :: fsState where
  "outputWithYogaSeries =
     writeJson (SessionSeriesFile (exampleHash ''series-1'')) yogaSeries emptyOutput"

section \<open>Properties of the recurrence expansion\<close>

lemma msPerDay_pos: "0 < msPerDay"
  by (simp add: msPerDay_def)

lemma plusDays_less_iff: "plusDays e a < plusDays e b \<longleftrightarrow> a < b"
  using msPerDay_pos by (simp add: plusDays_def)

lemma plusDays_le_iff: "plusDays e a \<le> plusDays e b \<longleftrightarrow> a \<le> b"
  using msPerDay_pos by (simp add: plusDays_def)

lemma plusDays_zero: "plusDays e 0 = e"
  by (simp add: plusDays_def)

lemma isAfter_valid: "isAfter a b \<Longrightarrow> \<exists>a' b'. a = Moment a' \<and> b = Moment b'"
  by (cases a; cases b) simp_all

lemma addDays_valid: "addDays m n = Moment t \<Longrightarrow> \<exists>t'. m = Moment t'"
  by (cases m) simp_all

lemma addDays_NaN: "addDays m None = m"
  by (cases m) simp_all

subsection \<open>When the loop does not return\<close>

lemma gen_Some_nonempty:
  assumes "generateScheduledSessionStartDates e l offs w p = Some y"
  shows "offs \<noteq> [] \<or> p \<noteq> []"
proof (rule generateScheduledSessionStartDates.raw_induct
         [where P = "\<lambda>e l offs w p y. offs \<noteq> [] \<or> p \<noteq> []", OF _ assms])
  fix f :: "moment \<Rightarrow> moment \<Rightarrow> int option list \<Rightarrow> int \<Rightarrow> int option list \<Rightarrow> moment list option"
    and e l offs w p y
  assume IH: "\<And>e l offs w p y. f e l offs w p = Some y \<Longrightarrow> offs \<noteq> [] \<or> p \<noteq> []"
    and step: "(case p of
        [] \<Rightarrow> f e l offs (w + 1) offs
      | off # rest \<Rightarrow>
          if w = 0 \<and> isNegative off
          then f e l offs w rest
          else if isAfter (addDays e (daysFromEarliest w off)) l
          then Some []
          else Option.bind (f e l offs w rest)
                 (\<lambda>dates. Some (addDays e (daysFromEarliest w off) # dates))) = Some y"
  show "offs \<noteq> [] \<or> p \<noteq> []"
  proof (cases p)
    case Nil
    with step have "f e l offs (w + 1) offs = Some y" by simp
    from IH[OF this] show ?thesis by simp
  next
    case (Cons a list)
    then show ?thesis by simp
  qed
qed

lemma gen_empty_None: "generateScheduledSessionStartDates e l [] w [] = None"
  using gen_Some_nonempty[of e l "[]" w "[]"]
  by (cases "generateScheduledSessionStartDates e l [] w []") auto

lemma gen_Some_valid:
  assumes "generateScheduledSessionStartDates e l offs w p = Some y"
  shows "\<exists>e' l'. e = Moment e' \<and> l = Moment l'"
proof (rule generateScheduledSessionStartDates.raw_induct
         [where P = "\<lambda>e l offs w p y. \<exists>e' l'. e = Moment e' \<and> l = Moment l'", OF _ assms])
  fix f :: "moment \<Rightarrow> moment \<Rightarrow> int option list \<Rightarrow> int \<Rightarrow> int option list \<Rightarrow> moment list option"
    and e l offs w p y
  assume IH: "\<And>e l offs w p y. f e l offs w p = Some y \<Longrightarrow>
      \<exists>e' l'. e = Moment e' \<and> l = Moment l'"
    and step: "(case p of
        [] \<Rightarrow> f e l offs (w + 1) offs
      | off # rest \<Rightarrow>
          if w = 0 \<and> isNegative off
          then f e l offs w rest
          else if isAfter (addDays e (daysFromEarliest w off)) l
          then Some []
          else Option.bind (f e l offs w rest)
                 (\<lambda>dates. Some (addDays e (daysFromEarliest w off) # dates))) = Some y"
  show "\<exists>e' l'. e = Moment e' \<and> l = Moment l'"
  proof (cases p)
    case Nil
    with step have "f e l offs (w + 1) offs = Some y" by simp
    from IH[OF this] show ?thesis .
  next
    case (Cons off rest)
    show ?thesis
    proof (cases "w = 0 \<and> isNegative off")
      case True
      with step Cons have "f e l offs w rest = Some y" by simp
      from IH[OF this] show ?thesis .
    next
      case skip: False
      show ?thesis
      proof (cases "isAfter (addDays e (daysFromEarliest w off)) l")
        case True
        from isAfter_valid[OF this] obtain a' l' where
          "addDays e (daysFromEarliest w off) = Moment a'" "l = Moment l'"
          by blast
        with addDays_valid[of e "daysFromEarliest w off" a'] show ?thesis by blast
      next
        case False
        with step Cons skip obtain ds' where "f e l offs w rest = Some ds'"
          by (auto split: bind_splits)
        from IH[OF this] show ?thesis .
      qed
    qed
  qed
qed

lemma gen_NaN_None:
  assumes "generateScheduledSessionStartDates e l offs w p = Some y"
  shows "\<not> (offs = [None] \<and> set p \<subseteq> {None} \<and> \<not> isAfter e l)"
proof (rule generateScheduledSessionStartDates.raw_induct
         [where P = "\<lambda>e l offs w p y. \<not> (offs = [None] \<and> set p \<subseteq> {None} \<and> \<not> isAfter e l)",
          OF _ assms])
  fix f :: "moment \<Rightarrow> moment \<Rightarrow> int option list \<Rightarrow> int \<Rightarrow> int option list \<Rightarrow> moment list option"
    and e l offs w p y
  assume IH: "\<And>e l offs w p y. f e l offs w p = Some y \<Longrightarrow>
      \<not> (offs = [None] \<and> set p \<subseteq> {None} \<and> \<not> isAfter e l)"
    and step: "(case p of
        [] \<Rightarrow> f e l offs (w + 1) offs
      | off # rest \<Rightarrow>
          if w = 0 \<and> isNegative off
          then f e l offs w rest
          else if isAfter (addDays e (daysFromEarliest w off)) l
          then Some []
          else Option.bind (f e l offs w rest)
                 (\<lambda>dates. Some (addDays e (daysFromEarliest w off) # dates))) = Some y"
  show "\<not> (offs = [None] \<and> set p \<subseteq> {None} \<and> \<not> isAfter e l)"
  proof
    assume a: "offs = [None] \<and> set p \<subseteq> {None} \<and> \<not> isAfter e l"
    show False
    proof (cases p)
      case Nil
      with step have "f e l offs (w + 1) offs = Some y" by simp
      from IH[OF this] a show False by simp
    next
      case (Cons off rest)
      with a have off: "off = None" and rest: "set rest \<subseteq> {None}" by auto
      have "addDays e (daysFromEarliest w off) = e"
        using off by (simp add: daysFromEarliest_def addDays_NaN)
      with step Cons off a obtain ds' where "f e l offs w rest = Some ds'"
        by (auto split: bind_splits)
      from IH[OF this] a rest show False by simp
    qed
  qed
qed

subsection \<open>The loop on times and whole numbers\<close>

lemma gen_stop_bound:
  assumes "0 \<le> w" and "(l - e) div msPerDay + 7 \<le> w" and "-7 < off"
  shows "l < plusDays e (w * 7 + off)"
proof -
  have "l - e = (l - e) div msPerDay * msPerDay + (l - e) mod msPerDay"
    by simp
  moreover have "(l - e) mod msPerDay < msPerDay"
    using msPerDay_pos by simp
  ultimately have "l - e < (l - e) div msPerDay * msPerDay + msPerDay"
    by linarith
  then have "l - e < ((l - e) div msPerDay + 1) * msPerDay"
    by (simp add: algebra_simps)
  moreover have "(l - e) div msPerDay + 1 \<le> w * 7 + off"
    using assms by linarith
  then have "((l - e) div msPerDay + 1) * msPerDay \<le> (w * 7 + off) * msPerDay"
    using msPerDay_pos by (simp add: mult_right_mono)
  ultimately show ?thesis
    by (simp add: plusDays_def)
qed

lemma gen_terminates_aux:
  assumes offs: "offs \<noteq> []" "\<forall>off\<in>set offs. -7 < off"
  shows "0 \<le> w \<Longrightarrow> nat ((l - e) div msPerDay + 7 - w) = n
    \<Longrightarrow> \<exists>ds. generateScheduledSessionStartDates (Moment e) (Moment l) (map Some offs) w
           (map Some p) = Some ds"
proof (induction n arbitrary: w p rule: less_induct)
  case (less n)
  note outer = less
  show ?case
  proof (induction p)
    case Nil
    show ?case
    proof (cases "w < (l - e) div msPerDay + 7")
      case True
      then have "nat ((l - e) div msPerDay + 7 - (w + 1)) < n"
        using outer(3) by linarith
      from outer(1)[OF this _ refl, of offs] outer(2)
      obtain ds where "generateScheduledSessionStartDates (Moment e) (Moment l) (map Some offs)
          (w + 1) (map Some offs) = Some ds"
        by auto
      then show ?thesis
        by (subst generateScheduledSessionStartDates.simps) simp
    next
      case False
      obtain off rest where o: "offs = off # rest"
        using offs(1) by (cases offs) auto
      have "l < plusDays e ((w + 1) * 7 + off)"
        using False outer(2) offs(2) o by (intro gen_stop_bound) auto
      then have "generateScheduledSessionStartDates (Moment e) (Moment l) (map Some offs)
          (w + 1) (map Some offs) = Some []"
        using outer(2) o
        by (subst generateScheduledSessionStartDates.simps) (simp add: daysFromEarliest_def)
      then show ?thesis
        by (subst generateScheduledSessionStartDates.simps) simp
    qed
  next
    case (Cons off rest)
    then obtain ds where "generateScheduledSessionStartDates (Moment e) (Moment l)
        (map Some offs) w (map Some rest) = Some ds"
      by auto
    then show ?case
      by (subst generateScheduledSessionStartDates.simps) (auto simp: daysFromEarliest_def)
  qed
qed

lemma gen_terminates:
  assumes "offs \<noteq> []" "\<forall>off\<in>set offs. -7 < off" "0 \<le> w"
  shows "\<exists>ds. generateScheduledSessionStartDates (Moment e) (Moment l) (map Some offs) w
           (map Some p) = Some ds"
  using gen_terminates_aux[OF assms(1,2,3) refl] .

lemma gen_range:
  assumes run: "generateScheduledSessionStartDates me ml moffs w mp = Some ds"
  shows "\<forall>e l offs p. me = Moment e \<longrightarrow> ml = Moment l \<longrightarrow> moffs = map Some offs \<longrightarrow>
      mp = map Some p \<longrightarrow> 0 \<le> w \<longrightarrow> (\<forall>off\<in>set offs. -7 < off) \<longrightarrow> (\<forall>off\<in>set p. -7 < off) \<longrightarrow>
      (\<exists>ms. ds = map Moment ms \<and> (\<forall>d\<in>set ms. e \<le> d \<and> d \<le> l))"
proof (rule generateScheduledSessionStartDates.raw_induct
         [where P = "\<lambda>me ml moffs w mp ds. \<forall>e l offs p. me = Moment e \<longrightarrow> ml = Moment l \<longrightarrow>
            moffs = map Some offs \<longrightarrow> mp = map Some p \<longrightarrow> 0 \<le> w \<longrightarrow>
            (\<forall>off\<in>set offs. -7 < off) \<longrightarrow> (\<forall>off\<in>set p. -7 < off) \<longrightarrow>
            (\<exists>ms. ds = map Moment ms \<and> (\<forall>d\<in>set ms. e \<le> d \<and> d \<le> l))", OF _ run])
  fix f :: "moment \<Rightarrow> moment \<Rightarrow> int option list \<Rightarrow> int \<Rightarrow> int option list \<Rightarrow> moment list option"
    and me ml moffs w mp ds
  assume IH: "\<And>me ml moffs w mp ds. f me ml moffs w mp = Some ds \<Longrightarrow>
      \<forall>e l offs p. me = Moment e \<longrightarrow> ml = Moment l \<longrightarrow> moffs = map Some offs \<longrightarrow>
        mp = map Some p \<longrightarrow> 0 \<le> w \<longrightarrow> (\<forall>off\<in>set offs. -7 < off) \<longrightarrow>
        (\<forall>off\<in>set p. -7 < off) \<longrightarrow>
        (\<exists>ms. ds = map Moment ms \<and> (\<forall>d\<in>set ms. e \<le> d \<and> d \<le> l))"
    and step: "(case mp of
        [] \<Rightarrow> f me ml moffs (w + 1) moffs
      | off # rest \<Rightarrow>
          if w = 0 \<and> isNegative off
          then f me ml moffs w rest
          else if isAfter (addDays me (daysFromEarliest w off)) ml
          then Some []
          else Option.bind (f me ml moffs w rest)
                 (\<lambda>dates. Some (addDays me (daysFromEarliest w off) # dates))) = Some ds"
  show "\<forall>e l offs p. me = Moment e \<longrightarrow> ml = Moment l \<longrightarrow> moffs = map Some offs \<longrightarrow>
      mp = map Some p \<longrightarrow> 0 \<le> w \<longrightarrow> (\<forall>off\<in>set offs. -7 < off) \<longrightarrow> (\<forall>off\<in>set p. -7 < off) \<longrightarrow>
      (\<exists>ms. ds = map Moment ms \<and> (\<forall>d\<in>set ms. e \<le> d \<and> d \<le> l))"
  proof (intro allI impI)
    fix e l offs p
    assume me: "me = Moment e" and ml: "ml = Moment l" and moffs: "moffs = map Some offs"
      and mp: "mp = map Some p"
      and w: "0 \<le> w" and offs: "\<forall>off\<in>set offs. -7 < off" and p: "\<forall>off\<in>set p. -7 < off"
    show "\<exists>ms. ds = map Moment ms \<and> (\<forall>d\<in>set ms. e \<le> d \<and> d \<le> l)"
    proof (cases p)
      case Nil
      with step mp have "f me ml moffs (w + 1) moffs = Some ds" by simp
      from IH[OF this, rule_format, of e l offs offs] me ml moffs w offs
      show ?thesis by simp
    next
      case (Cons off rest)
      then have mp': "mp = Some off # map Some rest" using mp by simp
      have rest: "\<forall>off\<in>set rest. -7 < off" using p Cons by simp
      show ?thesis
      proof (cases "w = 0 \<and> off < 0")
        case True
        with step mp' have "f me ml moffs w (map Some rest) = Some ds" by simp
        from IH[OF this, rule_format, of e l offs rest] me ml moffs w offs rest
        show ?thesis by blast
      next
        case skip: False
        show ?thesis
        proof (cases "l < plusDays e (w * 7 + off)")
          case True
          with step mp' skip me ml have "ds = []"
            by (auto simp: daysFromEarliest_def)
          then show ?thesis by simp
        next
          case False
          with step mp' skip me ml obtain ds' where
            ds': "f me ml moffs w (map Some rest) = Some ds'"
            and ds: "ds = Moment (plusDays e (w * 7 + off)) # ds'"
            by (auto simp: daysFromEarliest_def split: bind_splits)
          from IH[OF ds', rule_format, of e l offs rest] me ml moffs w offs rest
          obtain ms' where
            ms': "ds' = map Moment ms'" "\<forall>d\<in>set ms'. e \<le> d \<and> d \<le> l"
            by blast
          have "0 \<le> w * 7 + off"
            using skip w p Cons by (cases "w = 0") auto
          then have "plusDays e 0 \<le> plusDays e (w * 7 + off)"
            by (simp only: plusDays_le_iff)
          then have "e \<le> plusDays e (w * 7 + off)"
            by (simp add: plusDays_zero)
          with False ms' ds have "ds = map Moment (plusDays e (w * 7 + off) # ms') \<and>
              (\<forall>d\<in>set (plusDays e (w * 7 + off) # ms'). e \<le> d \<and> d \<le> l)"
            by simp
          then show ?thesis by blast
        qed
      qed
    qed
  qed
qed

lemma gen_sorted:
  assumes R: "R = (<) \<or> R = (\<le>)"
    and run: "generateScheduledSessionStartDates me ml moffs w mp = Some ds"
  shows "\<forall>e l offs p. me = Moment e \<longrightarrow> ml = Moment l \<longrightarrow> moffs = map Some offs \<longrightarrow>
      mp = map Some p \<longrightarrow> sorted_wrt R p \<longrightarrow> sorted_wrt R offs \<longrightarrow>
      (\<forall>a\<in>set offs \<union> set p. \<forall>b\<in>set offs \<union> set p. a - b < 7) \<longrightarrow>
      (\<exists>ms. ds = map Moment ms \<and> sorted_wrt R ms \<and> (\<forall>d\<in>set ms. laterDate e offs w p d))"
proof (rule generateScheduledSessionStartDates.raw_induct
         [where P = "\<lambda>me ml moffs w mp ds. \<forall>e l offs p. me = Moment e \<longrightarrow> ml = Moment l \<longrightarrow>
            moffs = map Some offs \<longrightarrow> mp = map Some p \<longrightarrow> sorted_wrt R p \<longrightarrow> sorted_wrt R offs \<longrightarrow>
            (\<forall>a\<in>set offs \<union> set p. \<forall>b\<in>set offs \<union> set p. a - b < 7) \<longrightarrow>
            (\<exists>ms. ds = map Moment ms \<and> sorted_wrt R ms \<and> (\<forall>d\<in>set ms. laterDate e offs w p d))",
          OF _ run])
  fix f :: "moment \<Rightarrow> moment \<Rightarrow> int option list \<Rightarrow> int \<Rightarrow> int option list \<Rightarrow> moment list option"
    and me ml moffs w mp ds
  assume IH: "\<And>me ml moffs w mp ds. f me ml moffs w mp = Some ds \<Longrightarrow>
      \<forall>e l offs p. me = Moment e \<longrightarrow> ml = Moment l \<longrightarrow> moffs = map Some offs \<longrightarrow>
        mp = map Some p \<longrightarrow> sorted_wrt R p \<longrightarrow> sorted_wrt R offs \<longrightarrow>
        (\<forall>a\<in>set offs \<union> set p. \<forall>b\<in>set offs \<union> set p. a - b < 7) \<longrightarrow>
        (\<exists>ms. ds = map Moment ms \<and> sorted_wrt R ms \<and> (\<forall>d\<in>set ms. laterDate e offs w p d))"
    and step: "(case mp of
        [] \<Rightarrow> f me ml moffs (w + 1) moffs
      | off # rest \<Rightarrow>
          if w = 0 \<and> isNegative off
          then f me ml moffs w rest
          else if isAfter (addDays me (daysFromEarliest w off)) ml
          then Some []
          else Option.bind (f me ml moffs w rest)
                 (\<lambda>dates. Some (addDays me (daysFromEarliest w off) # dates))) = Some ds"
  show "\<forall>e l offs p. me = Moment e \<longrightarrow> ml = Moment l \<longrightarrow> moffs = map Some offs \<longrightarrow>
      mp = map Some p \<longrightarrow> sorted_wrt R p \<longrightarrow> sorted_wrt R offs \<longrightarrow>
      (\<forall>a\<in>set offs \<union> set p. \<forall>b\<in>set offs \<union> set p. a - b < 7) \<longrightarrow>
      (\<exists>ms. ds = map Moment ms \<and> sorted_wrt R ms \<and> (\<forall>d\<in>set ms. laterDate e offs w p d))"
  proof (intro allI impI)
    fix e l offs p
    assume me: "me = Moment e" and ml: "ml = Moment l" and moffs: "moffs = map Some offs"
      and mp: "mp = map Some p"
      and sp: "sorted_wrt R p" and so: "sorted_wrt R offs"
      and span: "\<forall>a\<in>set offs \<union> set p. \<forall>b\<in>set offs \<union> set p. a - b < 7"
    show "\<exists>ms. ds = map Moment ms \<and> sorted_wrt R ms \<and> (\<forall>d\<in>set ms. laterDate e offs w p d)"
    proof (cases p)
      case Nil
      with step mp have "f me ml moffs (w + 1) moffs = Some ds" by simp
      from IH[OF this, rule_format, of e l offs offs] me ml moffs so span
      obtain ms where ms: "ds = map Moment ms" "sorted_wrt R ms"
        and *: "\<forall>d\<in>set ms. laterDate e offs (w + 1) offs d"
        by auto
      have "laterDate e offs w p d" if "d \<in> set ms" for d
      proof -
        from *[rule_format, OF that]
        consider off' where "off' \<in> set offs" "d = plusDays e ((w + 1) * 7 + off')"
          | w' off' where "w + 1 < w'" "off' \<in> set offs" "d = plusDays e (w' * 7 + off')"
          unfolding laterDate_def by blast
        then show ?thesis
        proof cases
          case 1
          have "w < w + 1" by simp
          with 1 show ?thesis unfolding laterDate_def by blast
        next
          case 2
          have "w < w'" using 2(1) by simp
          with 2 show ?thesis unfolding laterDate_def by blast
        qed
      qed
      with ms show ?thesis by blast
    next
      case (Cons off rest)
      then have mp': "mp = Some off # map Some rest" using mp by simp
      have sr: "sorted_wrt R rest" using sp Cons by simp
      have span': "\<forall>a\<in>set offs \<union> set rest. \<forall>b\<in>set offs \<union> set rest. a - b < 7"
        using span Cons by simp
      have weaken: "laterDate e offs w p d" if "laterDate e offs w rest d" for d
        using that Cons unfolding laterDate_def by auto
      show ?thesis
      proof (cases "w = 0 \<and> off < 0")
        case True
        with step mp' have "f me ml moffs w (map Some rest) = Some ds" by simp
        from IH[OF this, rule_format, of e l offs rest] me ml moffs sr so span'
        obtain ms where "ds = map Moment ms" "sorted_wrt R ms"
          "\<forall>d\<in>set ms. laterDate e offs w rest d"
          by blast
        with weaken show ?thesis by blast
      next
        case skip: False
        show ?thesis
        proof (cases "l < plusDays e (w * 7 + off)")
          case True
          with step mp' skip me ml have "ds = []"
            by (auto simp: daysFromEarliest_def)
          then show ?thesis by simp
        next
          case False
          with step mp' skip me ml obtain ds' where
            ds': "f me ml moffs w (map Some rest) = Some ds'"
            and ds: "ds = Moment (plusDays e (w * 7 + off)) # ds'"
            by (auto simp: daysFromEarliest_def split: bind_splits)
          from IH[OF ds', rule_format, of e l offs rest] me ml moffs sr so span'
          obtain ms' where ms': "ds' = map Moment ms'" and sds': "sorted_wrt R ms'"
            and later: "\<forall>d\<in>set ms'. laterDate e offs w rest d"
            by blast
          have first: "R (plusDays e (w * 7 + off)) d" if "d \<in> set ms'" for d
          proof -
            from later that have "laterDate e offs w rest d" by simp
            then consider off' where "off' \<in> set rest" "d = plusDays e (w * 7 + off')"
              | w' off' where "w < w'" "off' \<in> set offs" "d = plusDays e (w' * 7 + off')"
              unfolding laterDate_def by blast
            then show ?thesis
            proof cases
              case 1
              then have "R off off'" using sp Cons by auto
              then show ?thesis
                using R 1(2) by (auto simp: plusDays_less_iff plusDays_le_iff)
            next
              case 2
              have "off - off' < 7" using span 2(2) Cons by simp
              then have "w * 7 + off < w' * 7 + off'" using 2(1) by linarith
              then have "plusDays e (w * 7 + off) < d"
                using 2(3) by (simp add: plusDays_less_iff)
              then show ?thesis using R by auto
            qed
          qed
          have here: "laterDate e offs w p (plusDays e (w * 7 + off))"
            unfolding laterDate_def using Cons by auto
          have "ds = map Moment (plusDays e (w * 7 + off) # ms')"
            using ds ms' by simp
          moreover have "sorted_wrt R (plusDays e (w * 7 + off) # ms')"
            using sds' first by simp
          moreover have "\<forall>d\<in>set (plusDays e (w * 7 + off) # ms'). laterDate e offs w p d"
            using here later weaken by simp
          ultimately show ?thesis by blast
        qed
      qed
    qed
  qed
qed

subsection \<open>Weekdays and offsets\<close>

lemma includes_str_sublist: "includes_str s p = sublist p s"
  by (induction s) (auto simp: sublist_Cons_right)

lemma pushIsoWeekday_spec:
  "pushIsoWeekday acc entry =
     acc @ (case firstWeekdayNamedIn entry of None \<Rightarrow> [] | Some d \<Rightarrow> [d])"
  by (simp add: pushIsoWeekday_def firstWeekdayNamedIn_def weekdayNames_def
      includes_str_sublist)

lemma foldl_pushIsoWeekday:
  "foldl pushIsoWeekday acc entries = acc @ weekdayDerivationSpec entries"
  by (induction entries arbitrary: acc)
     (simp_all add: pushIsoWeekday_spec weekdayDerivationSpec_def split: option.splits)

lemma firstWeekdayNamedIn_range:
  "firstWeekdayNamedIn entry = Some d \<Longrightarrow> 1 \<le> d \<and> d \<le> 7"
  by (auto simp: firstWeekdayNamedIn_def weekdayNames_def split: if_splits)

lemma weekdayDerivationSpec_range:
  "d \<in> set (weekdayDerivationSpec entries) \<Longrightarrow> 1 \<le> d \<and> d \<le> 7"
  using firstWeekdayNamedIn_range
  by (fastforce simp: weekdayDerivationSpec_def List.map_filter_def)

lemma isoWeekdayOfDay_range: "1 \<le> isoWeekdayOfDay d \<and> isoWeekdayOfDay d \<le> 7"
  unfolding isoWeekdayOfDay_def
  using pos_mod_sign[of 7 "d + 3"] pos_mod_bound[of 7 "d + 3"] by linarith

lemma getIsoWeekdays_cases:
  "(\<exists>ws. getIsoWeekdays es = map Some ws \<and> (\<forall>d\<in>set ws. 1 \<le> d \<and> d \<le> 7)) \<or>
   getIsoWeekdays es = [None]"
proof (cases "byDay es")
  case None
  show ?thesis
  proof (cases "startDate es")
    case no: None
    with None have "getIsoWeekdays es = map Some []"
      by (simp add: getIsoWeekdays_def)
    then show ?thesis by fastforce
  next
    case (Some d)
    show ?thesis
    proof (cases d)
      case unparsable: None
      with None Some show ?thesis by (simp add: getIsoWeekdays_def)
    next
      case (Some day)
      with None \<open>startDate es = Some d\<close>
      have "getIsoWeekdays es = map Some [isoWeekdayOfDay day]"
        by (simp add: getIsoWeekdays_def)
      moreover have "\<forall>d\<in>set [isoWeekdayOfDay day]. 1 \<le> d \<and> d \<le> 7"
        using isoWeekdayOfDay_range by simp
      ultimately show ?thesis by blast
    qed
  qed
next
  case (Some items)
  then have "getIsoWeekdays es = map Some (weekdayDerivationSpec items)"
    by (simp add: getIsoWeekdays_def foldl_pushIsoWeekday)
  moreover have "\<forall>d\<in>set (weekdayDerivationSpec items). 1 \<le> d \<and> d \<le> 7"
    using weekdayDerivationSpec_range by blast
  ultimately show ?thesis by blast
qed

lemma jsRemainder_small: "\<bar>a\<bar> < 7 \<Longrightarrow> jsRemainder a 7 = a"
  by (simp add: jsRemainder_def mult_sgn_abs)

lemma insort_sortKey: "insort_key sortKey (Some x) (map Some ys) = map Some (insort x ys)"
  by (induction ys) simp_all

lemma sort_sortKey: "sort_key sortKey (map Some ws) = map Some (sort ws)"
  by (induction ws) (simp_all add: insort_sortKey)

lemma isoWeekdayOffsetsOf_valid:
  assumes "getIsoWeekdays es = map Some ws" and "\<forall>d\<in>set ws. 1 \<le> d \<and> d \<le> 7"
  shows "isoWeekdayOffsetsOf (Moment e) es =
    map Some (map (\<lambda>d. d - isoWeekdayOfDay (dayNumber e)) (sort ws))"
proof -
  have "jsRemainder (d - isoWeekdayOfDay (dayNumber e)) 7 = d - isoWeekdayOfDay (dayNumber e)"
    if "d \<in> set ws" for d
  proof -
    have "\<bar>d - isoWeekdayOfDay (dayNumber e)\<bar> < 7"
      using assms(2) that isoWeekdayOfDay_range[of "dayNumber e"] by force
    then show ?thesis by (rule jsRemainder_small)
  qed
  then show ?thesis
    by (simp add: isoWeekdayOffsetsOf_def assms(1) sort_sortKey)
qed

lemma offsets_bounds:
  assumes "\<forall>d\<in>set ws. 1 \<le> d \<and> d \<le> (7::int)" and "1 \<le> c \<and> c \<le> 7"
    and "a \<in> set (map (\<lambda>d. d - c) (sort ws))" and "b \<in> set (map (\<lambda>d. d - c) (sort ws))"
  shows "-7 < a" and "a - b < 7"
proof -
  from assms(3,4) obtain x y where x: "x \<in> set ws" "a = x - c" and y: "y \<in> set ws" "b = y - c"
    by auto
  from assms(1) x(1) y(1) have "1 \<le> x \<and> x \<le> 7" "1 \<le> y \<and> y \<le> 7" by simp_all
  with assms(2) x(2) y(2) show "-7 < a" and "a - b < 7" by linarith+
qed

lemma offsets_sorted: "sorted_wrt (\<le>) (map (\<lambda>d. d - c) (sort ws))" for c :: int
  by (simp add: sorted_wrt_map sorted_wrt_mono_rel[OF _ sorted_sort[of ws]])

lemma offsets_strict_sorted:
  "distinct ws \<Longrightarrow> sorted_wrt (<) (map (\<lambda>d. d - c) (sort ws))" for c :: int
proof -
  assume "distinct ws"
  then have "sorted_wrt (<) (sort ws)"
    by (simp add: strict_sorted_iff)
  then show ?thesis
    by (simp add: sorted_wrt_map)
qed

subsection \<open>The earliest and the latest moment\<close>

lemma now_before_next_day:
  "nowMoment \<le> plusDays (dayNumber nowMoment * msPerDay + int t) 1"
proof -
  have "nowMoment = nowMoment div msPerDay * msPerDay + nowMoment mod msPerDay" by simp
  moreover have "nowMoment mod msPerDay < msPerDay" using msPerDay_pos by simp
  ultimately have "nowMoment < nowMoment div msPerDay * msPerDay + msPerDay" by linarith
  then show ?thesis
    by (simp add: plusDays_def dayNumber_def)
qed

lemma earliestMomentOf_valid:
  assumes "earliestMomentOf nowMoment es = Moment e"
  shows "nowMoment \<le> e"
proof (cases "startTime es")
  case None
  with assms show ?thesis
    by (auto simp: earliestMomentOf_def Let_def combineYYYYMMDDAndHHMMString_def
        split: option.splits if_splits)
next
  case (Some t)
  let ?today = "dayNumber nowMoment * msPerDay + int t"
  let ?next = "if ?today < nowMoment then plusDays ?today 1 else ?today"
  have nxt: "nowMoment \<le> ?next"
    using now_before_next_day[of nowMoment t] by simp
  from assms Some
  have "e = ?next \<or> (\<exists>day. e = day * msPerDay + int t \<and> \<not> day * msPerDay + int t < ?next)"
    by (auto simp: earliestMomentOf_def Let_def combineYYYYMMDDAndHHMMString_def
        split: option.splits if_splits)
  with nxt show ?thesis by (auto split: if_splits)
qed

lemma latestMomentOf_valid:
  assumes "latestMomentOf nowMoment es = Moment l"
  shows "l \<le> plusDays nowMoment (7 * SCHEDULE_TIME_WINDOW_IN_WEEKS)"
  using assms
  by (cases "combineYYYYMMDDAndHHMMString (the (endDate es)) (startTime es)")
     (auto simp: latestMomentOf_def Let_def addWeeks_def split: option.splits if_splits)

lemma unparsable_invalid:
  assumes "startTime es = None \<or> startDate es = Some None \<or> endDate es = Some None"
  shows "earliestMomentOf nowMoment es = InvalidMoment \<or>
    latestMomentOf nowMoment es = InvalidMoment"
proof (cases "endDate es = Some None")
  case True
  then have "latestMomentOf nowMoment es = InvalidMoment"
    by (simp add: latestMomentOf_def Let_def combineYYYYMMDDAndHHMMString_def addWeeks_def)
  then show ?thesis by simp
next
  case False
  with assms have "startTime es = None \<or> startDate es = Some None" by simp
  then have "earliestMomentOf nowMoment es = InvalidMoment"
  proof
    assume "startTime es = None"
    then show ?thesis
      by (simp add: earliestMomentOf_def Let_def combineYYYYMMDDAndHHMMString_def
          split: option.splits)
  next
    assume "startDate es = Some None"
    then show ?thesis
      by (simp add: earliestMomentOf_def Let_def combineYYYYMMDDAndHHMMString_def)
  qed
  then show ?thesis by simp
qed

lemma parsable_valid:
  assumes "startTime es = Some t" and "startDate es \<noteq> Some None" and "endDate es \<noteq> Some None"
  shows "\<exists>e l. earliestMomentOf nowMoment es = Moment e \<and> latestMomentOf nowMoment es = Moment l"
proof -
  have "\<exists>l. latestMomentOf nowMoment es = Moment l"
    using assms(1,3)
    by (cases "endDate es")
       (auto simp: latestMomentOf_def Let_def combineYYYYMMDDAndHHMMString_def addWeeks_def)
  moreover have "\<exists>e. earliestMomentOf nowMoment es = Moment e"
    using assms(1,2)
    by (cases "startDate es")
       (auto simp: earliestMomentOf_def Let_def combineYYYYMMDDAndHHMMString_def)
  ultimately show ?thesis by blast
qed

subsection \<open>The sessions of a schedule\<close>

lemma map_sessionStartDate:
  "map (sessionStartDate \<circ> makeScheduledSession fmt es) ds = ds"
  by (induction ds) (simp_all add: makeScheduledSession_def)

lemma generate_dates:
  assumes "generateDatesWithinTimeWindow fmt nowMoment es = Some ss"
  shows "ss = [] \<or> (\<exists>ds. generateScheduledSessionStartDates (earliestMomentOf nowMoment es)
      (latestMomentOf nowMoment es) (isoWeekdayOffsetsOf (earliestMomentOf nowMoment es) es) 0
      (isoWeekdayOffsetsOf (earliestMomentOf nowMoment es) es) = Some ds
    \<and> \<not> isAfter (earliestMomentOf nowMoment es) (latestMomentOf nowMoment es)
    \<and> map sessionStartDate ss = ds)"
  using assms
  by (auto simp: generateDatesWithinTimeWindow_def Let_def map_sessionStartDate
      split: if_splits)

lemma generate_diverges:
  assumes "getIsoWeekdays es = []"
    and "\<not> isAfter (earliestMomentOf nowMoment es) (latestMomentOf nowMoment es)"
  shows "generateDatesWithinTimeWindow fmt nowMoment es = None"
  using assms
  by (simp add: generateDatesWithinTimeWindow_def Let_def isoWeekdayOffsetsOf_def gen_empty_None)

lemma generate_never_returns_on_unparsable:
  assumes "startTime es = None \<or> startDate es = Some None \<or> endDate es = Some None"
  shows "generateDatesWithinTimeWindow fmt nowMoment es = None"
proof (cases "generateDatesWithinTimeWindow fmt nowMoment es")
  case None
  then show ?thesis .
next
  case (Some ss)
  let ?e = "earliestMomentOf nowMoment es" and ?l = "latestMomentOf nowMoment es"
  from unparsable_invalid[OF assms, of nowMoment]
  have invalid: "?e = InvalidMoment \<or> ?l = InvalidMoment" .
  then have "\<not> isAfter ?e ?l"
    using isAfter_valid[of ?e ?l] by auto
  with Some obtain ds where "generateScheduledSessionStartDates ?e ?l
      (isoWeekdayOffsetsOf ?e es) 0 (isoWeekdayOffsetsOf ?e es) = Some ds"
    by (auto simp: generateDatesWithinTimeWindow_def Let_def)
  from gen_Some_valid[OF this] invalid show ?thesis by auto
qed

lemma generate_returns:
  assumes "generateDatesWithinTimeWindow fmt nowMoment es = Some ss"
  shows "\<exists>ms. map sessionStartDate ss = map Moment ms \<and>
      (\<forall>m\<in>set ms. nowMoment \<le> m \<and> m \<le> plusDays nowMoment (7 * SCHEDULE_TIME_WINDOW_IN_WEEKS)) \<and>
      sorted_wrt (\<le>) ms \<and>
      (distinct (getIsoWeekdays es) \<longrightarrow> sorted_wrt (<) ms)"
proof -
  let ?e = "earliestMomentOf nowMoment es" and ?l = "latestMomentOf nowMoment es"
  let ?offs = "isoWeekdayOffsetsOf ?e es"
  from generate_dates[OF assms] consider "ss = []"
    | ds where "generateScheduledSessionStartDates ?e ?l ?offs 0 ?offs = Some ds"
      "\<not> isAfter ?e ?l" "map sessionStartDate ss = ds"
    by auto
  then show ?thesis
  proof cases
    case 1
    then have "map sessionStartDate ss = map Moment [] \<and>
      (\<forall>m\<in>set []. nowMoment \<le> m \<and> m \<le> plusDays nowMoment (7 * SCHEDULE_TIME_WINDOW_IN_WEEKS)) \<and>
      sorted_wrt (\<le>) ([]::int list) \<and>
      (distinct (getIsoWeekdays es) \<longrightarrow> sorted_wrt (<) ([]::int list))"
      by simp
    then show ?thesis by blast
  next
    case 2
    from gen_Some_valid[OF 2(1)] obtain e l where e: "?e = Moment e" and l: "?l = Moment l"
      by blast
    have e_ge: "nowMoment \<le> e" using earliestMomentOf_valid[OF e] .
    have l_le: "l \<le> plusDays nowMoment (7 * SCHEDULE_TIME_WINDOW_IN_WEEKS)"
      using latestMomentOf_valid[OF l] .
    from getIsoWeekdays_cases[of es] obtain ws where
      ws: "getIsoWeekdays es = map Some ws" "\<forall>d\<in>set ws. 1 \<le> d \<and> d \<le> 7"
    proof
      assume "\<exists>ws. getIsoWeekdays es = map Some ws \<and> (\<forall>d\<in>set ws. 1 \<le> d \<and> d \<le> 7)"
      then show ?thesis using that by blast
    next
      assume "getIsoWeekdays es = [None]"
      then have "?offs = [None]"
        by (simp add: isoWeekdayOffsetsOf_def)
      with gen_NaN_None[OF 2(1)] 2(2) have False by simp
      then show ?thesis ..
    qed
    let ?c = "isoWeekdayOfDay (dayNumber e)"
    let ?ioffs = "map (\<lambda>d. d - ?c) (sort ws)"
    have offs: "?offs = map Some ?ioffs"
      using isoWeekdayOffsetsOf_valid[OF ws, of e] e by simp
    have c: "1 \<le> ?c \<and> ?c \<le> 7" by (rule isoWeekdayOfDay_range)
    have low: "\<forall>off\<in>set ?ioffs. -7 < off"
      using offsets_bounds(1)[OF ws(2) c] by blast
    have span: "\<forall>a\<in>set ?ioffs \<union> set ?ioffs. \<forall>b\<in>set ?ioffs \<union> set ?ioffs. a - b < 7"
      using offsets_bounds(2)[OF ws(2) c] by blast
    from gen_range[OF 2(1), rule_format, of e l ?ioffs ?ioffs] e l offs low
    obtain ms where ms: "ds = map Moment ms" "\<forall>d\<in>set ms. e \<le> d \<and> d \<le> l"
      by auto
    from gen_sorted[of "(\<le>)", OF _ 2(1), rule_format, of e l ?ioffs ?ioffs] e l offs span
      offsets_sorted[of ?c ws]
    obtain ms1 where ms1: "ds = map Moment ms1" "sorted_wrt (\<le>) ms1"
      by auto
    have inj: "ms1 = ms"
      using ms(1) ms1(1) by (simp add: inj_map_eq_map[of Moment] inj_on_def)
    have strict: "sorted_wrt (<) ms" if "distinct (getIsoWeekdays es)"
    proof -
      from that ws(1) have "distinct ws" by (simp add: distinct_map)
      from gen_sorted[of "(<)", OF _ 2(1), rule_format, of e l ?ioffs ?ioffs] e l offs span
        offsets_strict_sorted[OF this, of ?c]
      obtain ms2 where ms2: "ds = map Moment ms2" "sorted_wrt (<) ms2"
        by auto
      have "ms2 = ms"
        using ms(1) ms2(1) by (simp add: inj_map_eq_map[of Moment] inj_on_def)
      with ms2(2) show ?thesis by simp
    qed
    have "\<forall>m\<in>set ms. nowMoment \<le> m \<and> m \<le> plusDays nowMoment (7 * SCHEDULE_TIME_WINDOW_IN_WEEKS)"
      using ms(2) e_ge l_le by force
    with 2(3) ms(1) ms1(2) inj strict show ?thesis by blast
  qed
qed

lemma generate_terminates:
  assumes "startTime es = Some t" and "startDate es \<noteq> Some None" and "endDate es \<noteq> Some None"
    and "getIsoWeekdays es \<noteq> []"
  shows "\<exists>ss. generateDatesWithinTimeWindow fmt nowMoment es = Some ss"
proof -
  let ?e = "earliestMomentOf nowMoment es" and ?l = "latestMomentOf nowMoment es"
  from parsable_valid[OF assms(1,2,3), of nowMoment] obtain e l where
    e: "?e = Moment e" and l: "?l = Moment l"
    by blast
  have "getIsoWeekdays es \<noteq> [None]"
    using assms(2) by (auto simp: getIsoWeekdays_def split: option.splits)
  with getIsoWeekdays_cases[of es] obtain ws where
    ws: "getIsoWeekdays es = map Some ws" "\<forall>d\<in>set ws. 1 \<le> d \<and> d \<le> 7"
    by blast
  let ?c = "isoWeekdayOfDay (dayNumber e)"
  let ?ioffs = "map (\<lambda>d. d - ?c) (sort ws)"
  have offs: "isoWeekdayOffsetsOf ?e es = map Some ?ioffs"
    using isoWeekdayOffsetsOf_valid[OF ws, of e] e by simp
  have c: "1 \<le> ?c \<and> ?c \<le> 7" by (rule isoWeekdayOfDay_range)
  have low: "\<forall>off\<in>set ?ioffs. -7 < off"
    using offsets_bounds(1)[OF ws(2) c] by blast
  have "ws \<noteq> []" using assms(4) ws(1) by auto
  then have "length (sort ws) \<noteq> 0" by simp
  then have "?ioffs \<noteq> []" by (simp del: length_sort)
  from gen_terminates[OF this low, of 0 e l ?ioffs] obtain ds where
    "generateScheduledSessionStartDates (Moment e) (Moment l) (map Some ?ioffs) 0
       (map Some ?ioffs) = Some ds"
    by auto
  then show ?thesis
    using e l offs by (simp add: generateDatesWithinTimeWindow_def Let_def)
qed

subsection \<open>Claims about the recurrence expansion\<close>

text \<open>
  C10. The weekdays derived from \<open>byDay\<close> are found by substring containment against
  the English weekday names tried in the order Monday to Sunday: an entry that contains a
  weekday name anywhere gives that day, an entry that contains several gives only the
  first in that order, an entry that contains none gives nothing, and a repeated entry
  gives a repeated weekday. That is, \<open>getIsoWeekdays\<close> is \<open>weekdayDerivationSpec\<close> of
  the entries, each weekday being a number that is not \<^verbatim>\<open>NaN\<close>.
\<close>

theorem weekday_derivation:
  "byDay eventSchedule = Some entries \<Longrightarrow>
   getIsoWeekdays eventSchedule = map Some (weekdayDerivationSpec entries)"
  by (simp add: getIsoWeekdays_def foldl_pushIsoWeekday)

theorem weekday_derivation_witness:
  "getIsoWeekdays mixedByDaySchedule =
     map Some (weekdayDerivationSpec
       [''https://schema.org/Monday'', ''Sunday or Tuesday'', ''Someday'', ''Monday''])
   \<and> getIsoWeekdays mixedByDaySchedule = [Some 1, Some 2, Some 1]"
  using weekday_derivation [of mixedByDaySchedule
      "[''https://schema.org/Monday'', ''Sunday or Tuesday'', ''Someday'', ''Monday'']"]
  by (simp add: mixedByDaySchedule_def weekdayDerivationSpec_def firstWeekdayNamedIn_def
      weekdayNames_def includes_str_sublist [symmetric])

text \<open>
  C8, as claimed: the start instants of the emitted occurrences are strictly increasing.
  This fails when \<open>byDay\<close> names a weekday twice: for the schedule that names Monday twice,
  on Thursday 2024-01-04 10:00, the two occurrences emitted both start on Monday
  2024-01-08 18:00.
\<close>

theorem expansion_not_strictly_increasing:
  "map_option (map sessionStartDate)
     (generateDatesWithinTimeWindow exampleUtcFormat 1704362400000 mondayTwiceSchedule)
   = Some [Moment 1704736800000, Moment 1704736800000]"
  by (simp add: generateDatesWithinTimeWindow_def latestMomentOf_def earliestMomentOf_def
      isoWeekdayOffsetsOf_def getIsoWeekdays_def pushIsoWeekday_def mondayTwiceSchedule_def
      Let_def addWeeks_def plusDays_def combineYYYYMMDDAndHHMMString_def dayNumber_def
      isoWeekdayOfDay_def jsRemainder_def daysFromEarliest_def
      SCHEDULE_TIME_WINDOW_IN_WEEKS_def msPerDay_def makeScheduledSession_def
      generateScheduledSessionStartDates.simps)

text \<open>
  C8, amended: for every schedule, the start instants of the occurrences that the
  expansion emits never decrease, each being at or after the one emitted before it; they
  are strictly increasing when the weekdays derived from \<open>byDay\<close> are distinct. (The
  occurrences emitted are those of the array that the caller builds from the generator;
  each of them starts at a time, none at an invalid moment.)
\<close>

theorem expansion_ordering:
  assumes "generateDatesWithinTimeWindow fmt nowMoment eventSchedule = Some sessions"
  shows "\<exists>instants.
      map sessionStartDate sessions = map Moment instants \<and>
      sorted_wrt (\<le>) instants \<and>
      (distinct (getIsoWeekdays eventSchedule) \<longrightarrow> sorted_wrt (<) instants)"
  using generate_returns[OF assms] by blast

theorem expansion_ordering_witness:
  "map_option (map sessionStartDate)
     (generateDatesWithinTimeWindow exampleUtcFormat 1704362400000 mondayWednesdaySchedule)
     = Some [Moment 1704736800000, Moment 1704909600000] \<and>
   distinct (getIsoWeekdays mondayWednesdaySchedule) \<and>
   sorted_wrt (<) [1704736800000, 1704909600000 :: int]"
proof -
  have days: "getIsoWeekdays mondayWednesdaySchedule = [Some 1, Some 3]"
    by (simp add: getIsoWeekdays_def pushIsoWeekday_def mondayWednesdaySchedule_def)
  have "\<exists>sessions.
      generateDatesWithinTimeWindow exampleUtcFormat 1704362400000 mondayWednesdaySchedule
        = Some sessions \<and>
      map sessionStartDate sessions = [Moment 1704736800000, Moment 1704909600000]"
    by (simp add: generateDatesWithinTimeWindow_def latestMomentOf_def earliestMomentOf_def
      isoWeekdayOffsetsOf_def getIsoWeekdays_def pushIsoWeekday_def mondayWednesdaySchedule_def
      Let_def addWeeks_def plusDays_def combineYYYYMMDDAndHHMMString_def dayNumber_def
      isoWeekdayOfDay_def jsRemainder_def daysFromEarliest_def
      SCHEDULE_TIME_WINDOW_IN_WEEKS_def msPerDay_def makeScheduledSession_def
      generateScheduledSessionStartDates.simps)
  then obtain sessions where run:
    "generateDatesWithinTimeWindow exampleUtcFormat 1704362400000 mondayWednesdaySchedule
       = Some sessions"
    and starts: "map sessionStartDate sessions = [Moment 1704736800000, Moment 1704909600000]"
    by (elim exE conjE)
  from expansion_ordering [OF run] obtain instants where
    instants: "map sessionStartDate sessions = map Moment instants"
    and strict: "distinct (getIsoWeekdays mondayWednesdaySchedule) \<longrightarrow> sorted_wrt (<) instants"
    by blast
  have distinct: "distinct (getIsoWeekdays mondayWednesdaySchedule)"
    using days by simp
  from instants starts have "map Moment instants = [Moment 1704736800000, Moment 1704909600000]"
    by simp
  then have "instants = [1704736800000, 1704909600000]"
    by (auto simp: map_eq_Cons_conv)
  with strict distinct have "sorted_wrt (<) [1704736800000, 1704909600000 :: int]"
    by simp
  with run starts distinct show ?thesis by simp
qed

section \<open>Properties of the segment assignment\<close>

lemma filterE_Inr:
  "filterE f xs = Inr ys \<Longrightarrow> y \<in> set ys \<Longrightarrow> y \<in> set xs \<and> f y = Inr True"
  by (induction xs arbitrary: ys) (auto split: sum.splits if_splits)

lemma not_offline_when_online_only:
  "getProp item ''eventAttendanceMode'' = JStr ''https://schema.org/OnlineEventAttendanceMode''
    \<Longrightarrow> \<not> doesEventSupportOffline item"
  by (simp add: doesEventSupportOffline_def getEventsEventAttendanceMode_def jsOr_def)

subsection \<open>The distance test\<close>

lemma roundTiesToEven_nonneg: "0 \<le> x \<Longrightarrow> 0 \<le> roundTiesToEven x"
  by (auto simp: roundTiesToEven_def Let_def)

lemma nearestDouble_nonneg: "0 \<le> x \<Longrightarrow> 0 \<le> nearestDouble x"
  by (simp add: nearestDouble_def Let_def roundTiesToEven_nonneg)

lemma jsLessEq_jsTimes_nonneg:
  assumes "d \<le> 0" and "0 \<le> a" and "0 \<le> b"
  shows "jsLessEq d (jsTimes a b)"
proof -
  have "0 \<le> nearestDouble (nearestDouble a * nearestDouble b)"
    using assms by (intro nearestDouble_nonneg mult_nonneg_nonneg)
  with assms(1) show ?thesis
    by (auto simp: jsTimes_def binary64_def Let_def)
qed

lemma withinRadius_at_no_distance:
  assumes "\<And>itemLatitude itemLongitude segmentLatitude segmentLongitude.
      distanceFn itemLatitude itemLongitude segmentLatitude segmentLongitude \<le> 0"
    and "0 \<le> radius seg"
  shows "withinRadius distanceFn geo seg"
  using assms by (simp add: withinRadius_def Let_def jsLessEq_jsTimes_nonneg)

section \<open>Properties of the merge and of the output directory\<close>

lemma map_of_spread:
  "distinct (map fst b) \<Longrightarrow>
   map_of (spread a b) k = (case map_of b k of None \<Rightarrow> map_of a k | Some v \<Rightarrow> Some v)"
  unfolding spread_def
proof (induction b arbitrary: a)
  case Nil
  then show ?case by simp
next
  case (Cons p b)
  obtain k' v' where p: "p = (k', v')" by (cases p)
  from Cons.prems p have d: "distinct (map fst b)" and nk: "k' \<notin> fst ` set b" by auto
  have "map_of b k' = None" using nk by (simp add: map_of_eq_None_iff)
  with Cons.IH[OF d, of "AList.update k' v' a"] p show ?case
    by (auto simp: update_conv' split: option.splits)
qed

lemma getProp_update_other:
  "k \<noteq> k' \<Longrightarrow> getProp (JObj (AList.update k' v kvs)) k = getProp (JObj kvs) k"
  by (simp add: update_conv')

lemma getProp_update_same:
  "getProp (JObj (AList.update k v kvs)) k = v"
  by (simp add: update_conv')

lemma getProp_spread_last:
  "getProp (JObj (spread a [(k, v)])) k = v"
  by (simp add: spread_def update_conv')

lemma getProp_spread_other:
  "k \<noteq> k' \<Longrightarrow> getProp (JObj (spread a [(k', v)])) k = getProp (JObj a) k"
  by (simp add: spread_def update_conv')

lemma getProp_spread_defined:
  assumes "distinct (map fst b)" and "(k, v) \<in> set b"
  shows "getProp (JObj (spread a b)) k = v"
  using assms by (simp add: map_of_spread)

lemma merged_name:
  "getProp (JObj (mergedScheduledSessionDataOf occ series)) ''name'' =
     (if truthy (getProp series ''superEvent'') \<and>
         truthy (getProp (getProp series ''superEvent'') ''name'')
      then getProp (getProp series ''superEvent'') ''name''
      else if truthy (getProp series ''name'') then getProp series ''name''
      else getProp occ ''name'')"
  by (simp add: mergedScheduledSessionDataOf_def getProp_spread_last jsOr_def jsAnd_def
      del: getProp.simps)

lemma merged_field:
  assumes "distinct (map fst (entriesOf occ))" and "(k, v) \<in> set (entriesOf occ)"
    and "k \<noteq> ''name''"
  shows "getProp (JObj (mergedScheduledSessionDataOf occ series)) k = v"
  unfolding mergedScheduledSessionDataOf_def
  using assms by (simp add: getProp_spread_other getProp_spread_defined del: getProp.simps)


lemma files_writeJson [simp]: "files (writeJson p v st) = (files st)(p \<mapsto> v)"
  and indexFiles_writeJson [simp]: "indexFiles (writeJson p v st) = indexFiles st"
  and logged_writeJson [simp]: "logged (writeJson p v st) = logged st"
  by (simp_all add: writeJson_def)

lemma files_log_msg [simp]: "files (log_msg l m st) = files st"
  and indexFiles_log_msg [simp]: "indexFiles (log_msg l m st) = indexFiles st"
  and logged_log_msg [simp]: "logged (log_msg l m st) = logged st @ [(l, m)]"
  by (simp_all add: log_msg_def)

lemma files_appendIndexFile [simp]: "files (appendIndexFile s x st) = files st"
  and indexFiles_appendIndexFile [simp]:
    "indexFiles (appendIndexFile s x st) = (indexFiles st)(s := indexFiles st s @ [x])"
  and logged_appendIndexFile [simp]: "logged (appendIndexFile s x st) = logged st"
  by (simp_all add: appendIndexFile_def)

lemma files_mergeIntoModelExample:
  "\<exists>model. files (mergeIntoModelExample e p d st) = (files st)(p \<mapsto> model)"
  by (auto simp: mergeIntoModelExample_def Let_def)

lemma indexFiles_mergeIntoModelExample [simp]:
  "indexFiles (mergeIntoModelExample e p d st) = indexFiles st"
  and logged_mergeIntoModelExample [simp]:
  "logged (mergeIntoModelExample e p d st) = logged st"
  by (simp_all add: mergeIntoModelExample_def Let_def)

text \<open>One pass of the segment loop.\<close>

lemma writeToSegment_clash:
  assumes "files st (ScheduledSessionFile seg h) = Some existing" and "truthy existing"
    and "getProp existing ''id'' \<noteq> getProp (JObj merged) ''id''"
  shows "writeScheduledSessionToSegment e merged h st (JStr seg) =
    Inr (log_msg ''warn''
           (scheduledSessionHashClashWarning (templateString e (getProp existing ''id''))
              (templateString e (getProp (JObj merged) ''id'')) h) st)"
  using assms
  by (simp add: writeScheduledSessionToSegment_def readJsonNullIfNotExists_def Let_def
      del: getProp.simps)

lemma writeToSegment_same_id:
  assumes "files st (ScheduledSessionFile seg h) = Some existing" and "truthy existing"
    and "getProp existing ''id'' = getProp (JObj merged) ''id''"
    and "h \<noteq> ''model''"
    and "writeScheduledSessionToSegment e merged h st (JStr seg) = Inr st'"
  shows "files st' (ScheduledSessionFile seg h) = Some (JObj merged)"
    and "indexFiles st' = indexFiles st"
proof -
  from assms(1,2,3,5) have st': "st' = mergeIntoModelExample e (ScheduledSessionFile seg ''model'')
      (JObj merged) (writeJson (ScheduledSessionFile seg h) (JObj merged) st)"
    by (simp add: writeScheduledSessionToSegment_def readJsonNullIfNotExists_def Let_def
        del: getProp.simps)
  obtain model where "files st' = (files (writeJson (ScheduledSessionFile seg h) (JObj merged) st))
      (ScheduledSessionFile seg ''model'' \<mapsto> model)"
    unfolding st' using files_mergeIntoModelExample by blast
  then show "files st' (ScheduledSessionFile seg h) = Some (JObj merged)"
    using assms(4) by simp
  show "indexFiles st' = indexFiles st"
    unfolding st' by simp
qed

lemma writeToSegment_frame:
  assumes "writeScheduledSessionToSegment e merged h st segId = Inr st'"
  shows "files st' (SessionSeriesFile x) = files st (SessionSeriesFile x)"
    and "segId \<noteq> JStr seg \<Longrightarrow>
      files st' (ScheduledSessionFile seg name) = files st (ScheduledSessionFile seg name)"
    and "segId \<noteq> JStr seg \<Longrightarrow> indexFiles st' seg = indexFiles st seg"
    and "\<exists>more. logged st' = logged st @ more"
proof -
  from assms obtain s where s: "segId = JStr s"
    by (cases segId) (simp_all add: writeScheduledSessionToSegment_def)
  let ?p = "ScheduledSessionFile s h" and ?m = "ScheduledSessionFile s ''model''"
  let ?w = "mergeIntoModelExample e ?m (JObj merged) (writeJson ?p (JObj merged) st)"
  obtain model where model: "files ?w = (files (writeJson ?p (JObj merged) st))(?m \<mapsto> model)"
    using files_mergeIntoModelExample by blast
  from assms s consider msg where "st' = log_msg ''warn'' msg st"
    | entry where "st' = appendIndexFile s entry ?w"
    | "st' = ?w"
    by (auto simp: writeScheduledSessionToSegment_def Let_def simp del: getProp.simps
        split: if_splits)
  then have "files st' (SessionSeriesFile x) = files st (SessionSeriesFile x) \<and>
    (segId \<noteq> JStr seg \<longrightarrow>
      files st' (ScheduledSessionFile seg name) = files st (ScheduledSessionFile seg name)) \<and>
    (segId \<noteq> JStr seg \<longrightarrow> indexFiles st' seg = indexFiles st seg) \<and>
    (\<exists>more. logged st' = logged st @ more)"
  proof cases
    case 1
    then show ?thesis by simp
  next
    case 2
    then show ?thesis using model s by auto
  next
    case 3
    then show ?thesis using model s by auto
  qed
  then show "files st' (SessionSeriesFile x) = files st (SessionSeriesFile x)"
    and "segId \<noteq> JStr seg \<Longrightarrow>
      files st' (ScheduledSessionFile seg name) = files st (ScheduledSessionFile seg name)"
    and "segId \<noteq> JStr seg \<Longrightarrow> indexFiles st' seg = indexFiles st seg"
    and "\<exists>more. logged st' = logged st @ more"
    by simp_all
qed


text \<open>The whole segment loop.\<close>

lemma segmentLoop_frame:
  assumes "forEachE (writeScheduledSessionToSegment e merged h) segs st = Inr st'"
  shows "files st' (SessionSeriesFile x) = files st (SessionSeriesFile x)"
    and "\<exists>more. logged st' = logged st @ more"
  using assms
proof (induction segs arbitrary: st)
  case Nil
  {
    case 1 then show ?case by simp
  next
    case 2 then show ?case by simp
  }
next
  case (Cons segId segs)
  {
    case 1
    then obtain st1 where st1: "writeScheduledSessionToSegment e merged h st segId = Inr st1"
      "forEachE (writeScheduledSessionToSegment e merged h) segs st1 = Inr st'"
      by (auto split: sum.splits)
    from Cons.IH(1)[OF st1(2)] writeToSegment_frame(1)[OF st1(1)] show ?case by simp
  next
    case 2
    then obtain st1 where st1: "writeScheduledSessionToSegment e merged h st segId = Inr st1"
      "forEachE (writeScheduledSessionToSegment e merged h) segs st1 = Inr st'"
      by (auto split: sum.splits)
    from Cons.IH(2)[OF st1(2)] writeToSegment_frame(4)[OF st1(1)] show ?case by auto
  }
qed

lemma segmentLoop_clash_kept:
  assumes "forEachE (writeScheduledSessionToSegment e merged h) segs st = Inr st'"
    and "files st (ScheduledSessionFile seg h) = Some existing" and "truthy existing"
    and "getProp existing ''id'' \<noteq> getProp (JObj merged) ''id''"
  shows "files st' (ScheduledSessionFile seg h) = Some existing"
  using assms(1,2)
proof (induction segs arbitrary: st)
  case Nil
  then show ?case by simp
next
  case (Cons segId segs)
  then obtain st1 where st1: "writeScheduledSessionToSegment e merged h st segId = Inr st1"
    "forEachE (writeScheduledSessionToSegment e merged h) segs st1 = Inr st'"
    by (auto split: sum.splits)
  have "files st1 (ScheduledSessionFile seg h) = Some existing"
  proof (cases "segId = JStr seg")
    case True
    with st1(1) writeToSegment_clash[OF Cons.prems(2) assms(3,4), of e]
    have "st1 = log_msg ''warn''
        (scheduledSessionHashClashWarning (templateString e (getProp existing ''id''))
           (templateString e (getProp (JObj merged) ''id'')) h) st"
      by (simp del: getProp.simps)
    with Cons.prems(2) show ?thesis by simp
  next
    case False
    from writeToSegment_frame(2)[OF st1(1) False] Cons.prems(2) show ?thesis by simp
  qed
  from Cons.IH[OF st1(2) this] show ?case .
qed

lemma segmentLoop_clash_logged:
  assumes "forEachE (writeScheduledSessionToSegment e merged h) segs st = Inr st'"
    and "files st (ScheduledSessionFile seg h) = Some existing" and "truthy existing"
    and "getProp existing ''id'' \<noteq> getProp (JObj merged) ''id''"
    and "JStr seg \<in> set segs"
  shows "(''warn'',
          scheduledSessionHashClashWarning (templateString e (getProp existing ''id''))
            (templateString e (getProp (JObj merged) ''id'')) h) \<in> set (logged st')"
  using assms(1,2,5)
proof (induction segs arbitrary: st)
  case Nil
  then show ?case by simp
next
  case (Cons segId segs)
  then obtain st1 where st1: "writeScheduledSessionToSegment e merged h st segId = Inr st1"
    "forEachE (writeScheduledSessionToSegment e merged h) segs st1 = Inr st'"
    by (auto split: sum.splits)
  show ?case
  proof (cases "segId = JStr seg")
    case True
    with st1(1) writeToSegment_clash[OF Cons.prems(2) assms(3,4), of e]
    have "st1 = log_msg ''warn''
        (scheduledSessionHashClashWarning (templateString e (getProp existing ''id''))
           (templateString e (getProp (JObj merged) ''id'')) h) st"
      by (simp del: getProp.simps)
    then have "logged st1 = logged st @ [(''warn'',
          scheduledSessionHashClashWarning (templateString e (getProp existing ''id''))
            (templateString e (getProp (JObj merged) ''id'')) h)]"
      by (simp del: getProp.simps)
    moreover from segmentLoop_frame(2)[OF st1(2)] obtain more where
      "logged st' = logged st1 @ more" by blast
    ultimately show ?thesis by (simp del: getProp.simps)
  next
    case False
    from writeToSegment_frame(2)[OF st1(1) False] Cons.prems(2)
    have "files st1 (ScheduledSessionFile seg h) = Some existing" by simp
    moreover have "JStr seg \<in> set segs" using Cons.prems(3) False by auto
    ultimately show ?thesis using Cons.IH[OF st1(2)] by blast
  qed
qed

lemma segmentLoop_written_stays:
  assumes "forEachE (writeScheduledSessionToSegment e merged h) segs st = Inr st'"
    and "files st (ScheduledSessionFile seg h) = Some (JObj merged)"
    and "h \<noteq> ''model''"
  shows "files st' (ScheduledSessionFile seg h) = Some (JObj merged)"
  using assms(1,2)
proof (induction segs arbitrary: st)
  case Nil
  then show ?case by simp
next
  case (Cons segId segs)
  then obtain st1 where st1: "writeScheduledSessionToSegment e merged h st segId = Inr st1"
    "forEachE (writeScheduledSessionToSegment e merged h) segs st1 = Inr st'"
    by (auto split: sum.splits)
  have "files st1 (ScheduledSessionFile seg h) = Some (JObj merged)"
  proof (cases "segId = JStr seg")
    case True
    with st1(1) have "writeScheduledSessionToSegment e merged h st (JStr seg) = Inr st1"
      by simp
    from writeToSegment_same_id(1)[OF Cons.prems(2) _ _ assms(3) this] show ?thesis
      by simp
  next
    case False
    from writeToSegment_frame(2)[OF st1(1) False] Cons.prems(2) show ?thesis by simp
  qed
  from Cons.IH[OF st1(2) this] show ?case .
qed

lemma segmentLoop_same_id:
  assumes "forEachE (writeScheduledSessionToSegment e merged h) segs st = Inr st'"
    and "files st (ScheduledSessionFile seg h) = Some existing" and "truthy existing"
    and "getProp existing ''id'' = getProp (JObj merged) ''id''"
    and "h \<noteq> ''model''"
  shows "JStr seg \<in> set segs \<Longrightarrow> files st' (ScheduledSessionFile seg h) = Some (JObj merged)"
    and "indexFiles st' seg = indexFiles st seg"
proof -
  have "(JStr seg \<in> set segs \<longrightarrow> files st' (ScheduledSessionFile seg h) = Some (JObj merged)) \<and>
    indexFiles st' seg = indexFiles st seg"
    using assms(1,2,3,4)
  proof (induction segs arbitrary: st existing)
    case Nil
    then show ?case by simp
  next
    case (Cons segId segs)
    then obtain st1 where st1: "writeScheduledSessionToSegment e merged h st segId = Inr st1"
      "forEachE (writeScheduledSessionToSegment e merged h) segs st1 = Inr st'"
      by (auto split: sum.splits)
    show ?case
    proof (cases "segId = JStr seg")
      case True
      with st1(1) have w: "writeScheduledSessionToSegment e merged h st (JStr seg) = Inr st1"
        by simp
      note same = writeToSegment_same_id[OF Cons.prems(2,3,4) assms(5) w]
      have "truthy (JObj merged)" by simp
      from Cons.IH[OF st1(2) same(1) this] segmentLoop_written_stays[OF st1(2) same(1) assms(5)]
        same(2)
      show ?thesis by simp
    next
      case False
      from writeToSegment_frame(2)[OF st1(1) False] Cons.prems(2)
      have "files st1 (ScheduledSessionFile seg h) = Some existing" by simp
      from Cons.IH[OF st1(2) this Cons.prems(3,4)] writeToSegment_frame(3)[OF st1(1) False] False
      show ?thesis by simp
    qed
  qed
  then show "JStr seg \<in> set segs \<Longrightarrow> files st' (ScheduledSessionFile seg h) = Some (JObj merged)"
    and "indexFiles st' seg = indexFiles st seg"
    by simp_all
qed


text \<open>The merge as a whole.\<close>

lemma merge_run:
  assumes "mergeScheduledSessionAndSessionSeriesAndWrite e occ series st = Inr st'"
  obtains rawId segs where
    "getProp (JObj (mergedScheduledSessionDataOf occ series)) ''id'' = JStr rawId"
    "iterate (getProp series ''imin:segment'') = Inr segs"
    "forEachE (writeScheduledSessionToSegment e
        (AList.update ''imin:fileIdentifier'' (JStr (hashString e rawId))
           (mergedScheduledSessionDataOf occ series))
        (hashString e rawId)) segs st = Inr st'"
  using assms
  by (auto simp: mergeScheduledSessionAndSessionSeriesAndWrite_def Let_def
      simp del: getProp.simps split: json.splits sum.splits)

lemma merge_frame:
  assumes "mergeScheduledSessionAndSessionSeriesAndWrite e occ series st = Inr st'"
  shows "files st' (SessionSeriesFile x) = files st (SessionSeriesFile x)"
  using assms segmentLoop_frame(1) by (elim merge_run) blast

lemma merge_clash:
  assumes run: "mergeScheduledSessionAndSessionSeriesAndWrite e occ series st = Inr st'"
    and rawId: "getProp (JObj (mergedScheduledSessionDataOf occ series)) ''id'' = JStr rawId"
    and segs: "iterate (getProp series ''imin:segment'') = Inr segs" "JStr seg \<in> set segs"
    and existing: "files st (ScheduledSessionFile seg (hashString e rawId)) = Some existing"
      "truthy existing" "getProp existing ''id'' \<noteq> JStr rawId"
  shows "files st' (ScheduledSessionFile seg (hashString e rawId)) = Some existing"
    and "(''warn'', scheduledSessionHashClashWarning (templateString e (getProp existing ''id''))
            rawId (hashString e rawId)) \<in> set (logged st')"
proof -
  let ?merged = "AList.update ''imin:fileIdentifier'' (JStr (hashString e rawId))
      (mergedScheduledSessionDataOf occ series)"
  from run rawId segs(1)
  have loop: "forEachE (writeScheduledSessionToSegment e ?merged (hashString e rawId)) segs st
      = Inr st'"
    by (elim merge_run) (simp del: getProp.simps)
  have id: "getProp (JObj ?merged) ''id'' = JStr rawId"
    using rawId by (simp add: getProp_update_other del: getProp.simps)
  then have differ: "getProp existing ''id'' \<noteq> getProp (JObj ?merged) ''id''"
    using existing(3) by (simp del: getProp.simps)
  show "files st' (ScheduledSessionFile seg (hashString e rawId)) = Some existing"
    using segmentLoop_clash_kept[OF loop existing(1,2) differ] .
  show "(''warn'', scheduledSessionHashClashWarning (templateString e (getProp existing ''id''))
            rawId (hashString e rawId)) \<in> set (logged st')"
    using segmentLoop_clash_logged[OF loop existing(1,2) differ segs(2)] id
    by (simp add: templateString_def del: getProp.simps)
qed

lemma merge_same_id:
  assumes run: "mergeScheduledSessionAndSessionSeriesAndWrite e occ series st = Inr st'"
    and rawId: "getProp (JObj (mergedScheduledSessionDataOf occ series)) ''id'' = JStr rawId"
    and segs: "iterate (getProp series ''imin:segment'') = Inr segs" "JStr seg \<in> set segs"
    and existing: "files st (ScheduledSessionFile seg (hashString e rawId)) = Some existing"
      "truthy existing" "getProp existing ''id'' = JStr rawId"
    and model: "hashString e rawId \<noteq> ''model''"
  shows "files st' (ScheduledSessionFile seg (hashString e rawId)) =
      Some (JObj (AList.update ''imin:fileIdentifier'' (JStr (hashString e rawId))
        (mergedScheduledSessionDataOf occ series)))"
    and "indexFiles st' seg = indexFiles st seg"
proof -
  let ?merged = "AList.update ''imin:fileIdentifier'' (JStr (hashString e rawId))
      (mergedScheduledSessionDataOf occ series)"
  from run rawId segs(1)
  have loop: "forEachE (writeScheduledSessionToSegment e ?merged (hashString e rawId)) segs st
      = Inr st'"
    by (elim merge_run) (simp del: getProp.simps)
  have id: "getProp (JObj ?merged) ''id'' = JStr rawId"
    using rawId by (simp add: getProp_update_other del: getProp.simps)
  then have same: "getProp existing ''id'' = getProp (JObj ?merged) ''id''"
    using existing(3) by (simp del: getProp.simps)
  show "files st' (ScheduledSessionFile seg (hashString e rawId)) = Some (JObj ?merged)"
    using segmentLoop_same_id(1)[OF loop existing(1,2) same model segs(2)] .
  show "indexFiles st' seg = indexFiles st seg"
    using segmentLoop_same_id(2)[OF loop existing(1,2) same model] .
qed

text \<open>The SessionSeries file.\<close>

lemma sessionLoop_frame:
  assumes "forEachE (\<lambda>st' session. mergeScheduledSessionAndSessionSeriesAndWrite e session series st')
      sessions st = Inr st'"
  shows "files st' (SessionSeriesFile x) = files st (SessionSeriesFile x)"
  using assms
proof (induction sessions arbitrary: st)
  case Nil
  then show ?case by simp
next
  case (Cons session sessions)
  then obtain st1 where
    "mergeScheduledSessionAndSessionSeriesAndWrite e session series st = Inr st1"
    "forEachE (\<lambda>st' session. mergeScheduledSessionAndSessionSeriesAndWrite e session series st')
      sessions st1 = Inr st'"
    by (auto split: sum.splits)
  with Cons.IH[of st1] merge_frame[of e session series st st1 x] show ?case by simp
qed

lemma process_single:
  "processSessionSeriesItems e segments [item] st = processSessionSeriesItem e segments st item"
  by (auto split: option.splits sum.splits)

lemma series_clash:
  assumes "prepareSessionSeries e segments item = Some (Inr (Some prepared))"
    and "getProp item ''id'' = JStr rawId"
    and "files st (SessionSeriesFile (hashString e rawId)) = Some existing"
    and "truthy existing" and "getProp existing ''id'' \<noteq> JStr rawId"
  shows "processSessionSeriesItems e segments [item] st =
    Some (Inr (log_msg ''warn''
      (sessionSeriesHashClashWarning (templateString e (getProp existing ''id'')) rawId
         (hashString e rawId)) st))"
  using assms unfolding process_single
  by (simp add: processSessionSeriesItem_def persistSessionSeries_def
      readJsonNullIfNotExists_def Let_def del: getProp.simps)

lemma series_same_id:
  assumes "prepareSessionSeries e segments item = Some (Inr (Some prepared))"
    and "getProp item ''id'' = JStr rawId"
    and "files st (SessionSeriesFile (hashString e rawId)) = Some existing"
    and "truthy existing" and "getProp existing ''id'' = JStr rawId"
    and "processSessionSeriesItems e segments [item] st = Some (Inr st')"
  shows "files st' (SessionSeriesFile (hashString e rawId)) =
    Some (JObj (spread (sessionSeriesData prepared)
      [(''eventSchedule'', JArr (correctedEventSchedules prepared))]))"
proof -
  let ?content = "JObj (spread (sessionSeriesData prepared)
      [(''eventSchedule'', JArr (correctedEventSchedules prepared))])"
  from assms have "forEachE
      (\<lambda>st' session. mergeScheduledSessionAndSessionSeriesAndWrite e session
         (JObj (sessionSeriesData prepared)) st')
      (scheduledSessionsForEveryEventSchedule prepared)
      (writeJson (SessionSeriesFile (hashString e rawId)) ?content st) = Inr st'"
    unfolding process_single
    by (simp add: processSessionSeriesItem_def persistSessionSeries_def
      readJsonNullIfNotExists_def Let_def del: getProp.simps)
  from sessionLoop_frame[OF this, of "hashString e rawId"] show ?thesis by simp
qed









section \<open>Examples, evaluated\<close>

lemmas example_defs = exampleEnv_def exampleHash_def northSegment_def everywhereSegment_def
  yogaSeries_def yogaSessionData_def yogaSessionItem_def yogaSeriesItem_def onlineSeriesItem_def
  onlineSessionData_def emptyOutput_def earlierSession_def otherSession_def earlierSeries_def
  otherSeries_def outputWithEarlierSession_def outputWithOtherSession_def
  outputWithEarlierSeries_def outputWithOtherSeries_def outputWithYogaSeries_def

lemmas run_defs = mergeScheduledSessionAndSessionSeriesAndWrite_def
  mergedScheduledSessionDataOf_def writeScheduledSessionToSegment_def iterate_def spread_def
  readJsonNullIfNotExists_def writeJson_def mergeIntoModelExample_def appendIndexFile_def
  log_msg_def jsOr_def jsAnd_def Let_def templateString_def



lemmas time_defs = generateDatesWithinTimeWindow_def latestMomentOf_def earliestMomentOf_def
      isoWeekdayOffsetsOf_def getIsoWeekdays_def pushIsoWeekday_def
      Let_def addWeeks_def plusDays_def combineYYYYMMDDAndHHMMString_def dayNumber_def
      isoWeekdayOfDay_def jsRemainder_def daysFromEarliest_def
      SCHEDULE_TIME_WINDOW_IN_WEEKS_def msPerDay_def makeScheduledSession_def

lemma withinRadius_example:
  "0 \<le> radius seg \<Longrightarrow> withinRadius (getDistance exampleEnv) geo seg"
  by (rule withinRadius_at_no_distance) (simp_all add: exampleEnv_def)

lemmas series_defs = prepareSessionSeries_def sessionSeriesPhysicalLocationGeoOf_def
  processSessionSeriesItem_def persistSessionSeries_def withinRadius_example
  withinRadius_at_no_distance

lemma hashString_exampleEnv: "hashString exampleEnv = exampleHash"
  by (simp add: exampleEnv_def)

lemma prepare_yogaSeriesItem:
  "prepareSessionSeries exampleEnv [northSegment] yogaSeriesItem
      = Some (Inr (Some \<lparr> sessionSeriesData =
      [(''id'', JStr ''series-1''), (''name'', JStr ''Yoga series''),
       (''location'', JObj [(''geo'', JObj [(''latitude'', JNum 54), (''longitude'', JNum (-2))])]),
       (''imin:segment'', JArr [JStr ''north''])],
      correctedEventSchedules = [], scheduledSessionsForEveryEventSchedule = [] \<rparr>))"
  by (simp add: exampleEnv_def northSegment_def yogaSeriesItem_def series_defs run_defs)

lemma merged_yoga_id:
  "getProp (JObj (mergedScheduledSessionDataOf yogaSessionData yogaSeries)) ''id'' = JStr ''occ-1''"
  by (simp add: yogaSessionData_def yogaSeries_def mergedScheduledSessionDataOf_def spread_def)

lemma yogaSeries_segments: "iterate (getProp yogaSeries ''imin:segment'') = Inr [JStr ''north'']"
  by (simp add: yogaSeries_def iterate_def)

lemma prepare_mondayScheduleSeriesItem:
  "\<exists>seriesData corrected.
    prepareSessionSeries exampleEnv [northSegment] mondayScheduleSeriesItem =
    Some (Inr (Some \<lparr> sessionSeriesData = seriesData, correctedEventSchedules = corrected,
      scheduledSessionsForEveryEventSchedule =
        [JObj [(''type'', JStr ''ScheduledSession''),
               (''id'', JStr ''https://example.com/run/2024-01-08T18:00:00Z''),
               (''startDate'', JStr ''2024-01-08T18:00:00Z''),
               (''endDate'', JStr ''2024-01-08T18:00:00Z'')]] \<rparr>))"
  by (simp add: prepareSessionSeries_def mondayScheduleSeriesItem_def
        sessionSeriesPhysicalLocationGeoOf_def jsOr_def jsAnd_def exampleEnv_def northSegment_def
        spread_def SCHEDULE_TYPE_def MINIMAL_EVENT_SCHEDULE_SCHEMA_def
        generateScheduledSessions_def getScheduleTimezone_def toMinimalEventSchedule_def
        scheduledSessionToJson_def exampleUtcFormat_def time_defs
        withinRadius_at_no_distance generateScheduledSessionStartDates.simps)

lemma unrecognisedDaySchedule_diverges:
  "generateDatesWithinTimeWindow fmt nowMoment unrecognisedDaySchedule = None"
proof -
  have "getIsoWeekdays unrecognisedDaySchedule = []"
    by (simp add: getIsoWeekdays_def unrecognisedDaySchedule_def pushIsoWeekday_def)
  moreover have "\<not> isAfter (earliestMomentOf nowMoment unrecognisedDaySchedule)
      (latestMomentOf nowMoment unrecognisedDaySchedule)"
  proof -
    have "nowMoment = nowMoment div msPerDay * msPerDay + nowMoment mod msPerDay" by simp
    moreover have "0 \<le> nowMoment mod msPerDay" using msPerDay_pos by simp
    ultimately have "nowMoment div msPerDay * msPerDay \<le> nowMoment" by linarith
    then show ?thesis
      by (simp add: latestMomentOf_def earliestMomentOf_def unrecognisedDaySchedule_def Let_def
        addWeeks_def plusDays_def combineYYYYMMDDAndHHMMString_def dayNumber_def
        SCHEDULE_TIME_WINDOW_IN_WEEKS_def msPerDay_def)
  qed
  ultimately show ?thesis by (rule generate_diverges)
qed

lemma unrecognised_generate:
  "generateScheduledSessions exampleEnv unrecognisedDayEventSchedule = None"
proof -
  let ?es = "toMinimalEventSchedule exampleEnv unrecognisedDayEventSchedule"
  have es: "?es = \<lparr> byDay = Some [''Someday''], startTime = Some 64800000,
     endTime = Some 68400000, startDate = None, endDate = None, duration = None,
     idTemplate = ''https://example.com/run/{startDate}'' \<rparr>"
    by (simp add: toMinimalEventSchedule_def unrecognisedDayEventSchedule_def exampleEnv_def)
  have "getIsoWeekdays ?es = []"
    unfolding es by (simp add: getIsoWeekdays_def pushIsoWeekday_def)
  moreover have "\<not> isAfter (earliestMomentOf 1704362400000 ?es)
      (latestMomentOf 1704362400000 ?es)"
    unfolding es
    by (simp add: latestMomentOf_def earliestMomentOf_def Let_def
        addWeeks_def plusDays_def combineYYYYMMDDAndHHMMString_def dayNumber_def
        SCHEDULE_TIME_WINDOW_IN_WEEKS_def msPerDay_def)
  ultimately have "generateDatesWithinTimeWindow
      (utcFormat exampleEnv (getScheduleTimezone unrecognisedDayEventSchedule))
      1704362400000 ?es = None"
    by (rule generate_diverges)
  moreover have "nowIn exampleEnv (getScheduleTimezone unrecognisedDayEventSchedule) = 1704362400000"
    by (simp add: exampleEnv_def)
  moreover have "getScheduleTimezone unrecognisedDayEventSchedule = JStr ''Europe/London''"
    by (simp add: getScheduleTimezone_def unrecognisedDayEventSchedule_def jsOr_def)
  ultimately show ?thesis
    by (simp add: generateScheduledSessions_def Let_def)
qed

lemma unrecognised_valid: "MINIMAL_EVENT_SCHEDULE_SCHEMA unrecognisedDayEventSchedule"
  by (simp add: MINIMAL_EVENT_SCHEDULE_SCHEMA_def unrecognisedDayEventSchedule_def)

lemma unrecognised_type: "getProp unrecognisedDayEventSchedule ''type'' = JStr SCHEDULE_TYPE"
  "\<not> nullish unrecognisedDayEventSchedule"
  by (simp_all add: unrecognisedDayEventSchedule_def SCHEDULE_TYPE_def)

lemma unrecognised_validateAndGenerate:
  "validateAndGenerate exampleEnv [unrecognisedDayEventSchedule] = None"
  using unrecognised_generate unrecognised_valid unrecognised_type
  by (simp del: getProp.simps)

lemma unrecognised_process:
  "processSessionSeriesItems exampleEnv [northSegment] [unrecognisedDaySeriesItem] st = None"
proof -
  have "prepareSessionSeries exampleEnv [northSegment] unrecognisedDaySeriesItem = None"
    using unrecognised_validateAndGenerate
    by (simp add: prepareSessionSeries_def unrecognisedDaySeriesItem_def
        sessionSeriesPhysicalLocationGeoOf_def jsOr_def jsAnd_def withinRadius_example
        northSegment_def spread_def Let_def)
  then show ?thesis
    unfolding process_single by (simp add: processSessionSeriesItem_def)
qed

lemma getFirehosePage_rejects_invalid_second_item:
  "getFirehosePage pageUrl invalidSecondItemResponse =
     Inl (IminValidationError ''item should be non-null and have state=updated|deleted''
       (JObj [(''index'', JNum 1), (''id'', JNull)]))"
  by (simp add: getFirehosePage_def invalidSecondItemResponse_def validateStatus_def
      invalidItem_def jsAnd_def)

lemma unparsableEndDateSchedule_never_returns:
  "generateDatesWithinTimeWindow fmt nowMoment unparsableEndDateSchedule = None"
  by (rule generate_never_returns_on_unparsable) (simp add: unparsableEndDateSchedule_def)



section \<open>Generated sessions of a SessionSeries\<close>








section \<open>The warnings name both ids and the hash\<close>

lemma sublist_second: "sublist y (a @ x @ b @ y @ c)"
  using sublist_appendI[of y "a @ x @ b" c] by simp

lemma sublist_third: "sublist z (a @ x @ b @ y @ c @ z)"
  using sublist_appendI[of z "a @ x @ b @ y @ c" "[]"] by simp

lemma warning_names_ids_and_hash:
  "sublist existingId (sessionSeriesHashClashWarning existingId receivedId idHash)"
  "sublist receivedId (sessionSeriesHashClashWarning existingId receivedId idHash)"
  "sublist idHash (sessionSeriesHashClashWarning existingId receivedId idHash)"
  "sublist existingId (scheduledSessionHashClashWarning existingId receivedId idHash)"
  "sublist receivedId (scheduledSessionHashClashWarning existingId receivedId idHash)"
  "sublist idHash (scheduledSessionHashClashWarning existingId receivedId idHash)"
  unfolding sessionSeriesHashClashWarning_def scheduledSessionHashClashWarning_def
  by (rule sublist_appendI sublist_second sublist_third)+

section \<open>Claims\<close>

text \<open>
  C1. The claim is that the expansion returns for every schedule that passes the
  structural validation, with the empty sequence when no \<open>byDay\<close> entry names a weekday.
  The code does not return on such a schedule: with \<open>byDay = [Someday]\<close>, 10:00 to 11:00
  and no start or end date, \<open>generateDatesWithinTimeWindow\<close> has no result, whatever the
  current time; the schedule \<open>unrecognisedDayEventSchedule\<close> passes
  \<open>MINIMAL_EVENT_SCHEDULE_SCHEMA\<close>, and the processing of a SessionSeries item that
  carries it does not return either.
\<close>

theorem unrecognised_byDay_never_returns:
  "generateDatesWithinTimeWindow fmt nowMoment unrecognisedDaySchedule = None \<and>
   MINIMAL_EVENT_SCHEDULE_SCHEMA unrecognisedDayEventSchedule \<and>
   processSessionSeriesItems exampleEnv [northSegment] [unrecognisedDaySeriesItem] st = None"
  using unrecognisedDaySchedule_diverges unrecognised_valid unrecognised_process
  by simp

text \<open>
  C2. The claim is that a page with an invalid element at any index of \<open>items\<close>,
  index 0 included, is rejected by a validation error. The code compares the index found
  with \<open>> 0\<close>, so an invalid first element is let through: the response whose first item
  is \<open>null\<close> is returned as a page, with the \<open>null\<close> among its items.
\<close>

theorem getFirehosePage_accepts_invalid_first_item:
  "getFirehosePage pageUrl invalidFirstItemResponse =
     Inr \<lparr> nextNextUrl = ''https://example.com/feed?afterId=2'',
           items = [JNull, JObj [(''id'', JStr ''b''), (''state'', JStr ''updated'')]] \<rparr>"
  by (simp add: getFirehosePage_def invalidFirstItemResponse_def validateStatus_def
      invalidItem_def)

text \<open>
  C3, as claimed: when the file at the hash of an id already holds an object with that
  id, nothing is written and the content of the file stays as it was. This fails: the
  file of \<open>occ-1\<close> in segment \<open>north\<close> holds an earlier version of \<open>occ-1\<close>, and after
  the merge it holds the newly merged record.
\<close>

theorem same_id_file_is_rewritten:
  "files outputWithEarlierSession (ScheduledSessionFile ''north'' (exampleHash ''occ-1''))
     = Some (JObj [(''id'', JStr ''occ-1''), (''name'', JStr ''Earlier name'')]) \<and>
   (case mergeScheduledSessionAndSessionSeriesAndWrite exampleEnv yogaSessionData yogaSeries
           outputWithEarlierSession of
      Inl err \<Rightarrow> None
    | Inr st' \<Rightarrow> files st' (ScheduledSessionFile ''north'' (exampleHash ''occ-1'')))
     = Some (JObj [(''name'', JStr ''Yoga programme''), (''id'', JStr ''occ-1''),
          (''imin:segment'', JArr [JStr ''north'']), (''superEvent'', JStr ''series-1''),
          (''startDate'', JStr ''2024-01-08T18:00:00Z''),
          (''imin:fileIdentifier'', JStr (exampleHash ''occ-1''))])"
  by (simp add: example_defs run_defs)

text \<open>
  C3, amended: when the file at the hash of an id already holds an object with that id,
  the file is written again and then holds the newly computed record. This holds for the
  file of a SessionSeries and for the file of a ScheduledSession in each segment of its
  series (the digest of an id is never \<open>model\<close>); for a ScheduledSession the index of the
  segment gets no further entry.
\<close>

theorem same_id_put_overwrites:
  "(prepareSessionSeries e segments item = Some (Inr (Some prepared)) \<and>
    getProp item ''id'' = JStr seriesId \<and>
    files st (SessionSeriesFile (hashString e seriesId)) = Some existingSeries \<and>
    truthy existingSeries \<and> getProp existingSeries ''id'' = JStr seriesId \<and>
    processSessionSeriesItems e segments [item] st = Some (Inr st')
    \<longrightarrow> files st' (SessionSeriesFile (hashString e seriesId)) =
          Some (JObj (spread (sessionSeriesData prepared)
            [(''eventSchedule'', JArr (correctedEventSchedules prepared))])))
   \<and>
   (mergeScheduledSessionAndSessionSeriesAndWrite e scheduledSessionData sessionSeries st2
      = Inr st2' \<and>
    getProp (JObj (mergedScheduledSessionDataOf scheduledSessionData sessionSeries)) ''id''
      = JStr occurrenceId \<and>
    iterate (getProp sessionSeries ''imin:segment'') = Inr segmentIds \<and>
    JStr seg \<in> set segmentIds \<and>
    files st2 (ScheduledSessionFile seg (hashString e occurrenceId)) = Some existingSession \<and>
    truthy existingSession \<and> getProp existingSession ''id'' = JStr occurrenceId \<and>
    hashString e occurrenceId \<noteq> ''model''
    \<longrightarrow> files st2' (ScheduledSessionFile seg (hashString e occurrenceId)) =
          Some (JObj (AList.update ''imin:fileIdentifier'' (JStr (hashString e occurrenceId))
            (mergedScheduledSessionDataOf scheduledSessionData sessionSeries))) \<and>
        indexFiles st2' seg = indexFiles st2 seg)"
  using series_same_id[of e segments item prepared seriesId st existingSeries st']
    merge_same_id[of e scheduledSessionData sessionSeries st2 st2' occurrenceId segmentIds seg
      existingSession]
  by blast

theorem same_id_put_overwrites_witness:
  "(\<exists>st'. processSessionSeriesItems exampleEnv [northSegment] [yogaSeriesItem]
        outputWithEarlierSeries = Some (Inr st') \<and>
      files outputWithEarlierSeries (SessionSeriesFile (exampleHash ''series-1''))
        = Some earlierSeries \<and>
      files st' (SessionSeriesFile (exampleHash ''series-1'')) =
        Some (JObj [(''id'', JStr ''series-1''), (''name'', JStr ''Yoga series''),
          (''location'', JObj [(''geo'', JObj [(''latitude'', JNum 54), (''longitude'', JNum (-2))])]),
          (''imin:segment'', JArr [JStr ''north'']), (''eventSchedule'', JArr [])]))
   \<and>
   (\<exists>st'. mergeScheduledSessionAndSessionSeriesAndWrite exampleEnv yogaSessionData yogaSeries
        outputWithEarlierSession = Inr st' \<and>
      files outputWithEarlierSession (ScheduledSessionFile ''north'' (exampleHash ''occ-1''))
        = Some earlierSession \<and>
      files st' (ScheduledSessionFile ''north'' (exampleHash ''occ-1'')) =
        Some (JObj [(''name'', JStr ''Yoga programme''), (''id'', JStr ''occ-1''),
          (''imin:segment'', JArr [JStr ''north'']), (''superEvent'', JStr ''series-1''),
          (''startDate'', JStr ''2024-01-08T18:00:00Z''),
          (''imin:fileIdentifier'', JStr (exampleHash ''occ-1''))]) \<and>
      indexFiles st' ''north'' = [])"
proof -
  let ?prepared = "\<lparr> sessionSeriesData =
      [(''id'', JStr ''series-1''), (''name'', JStr ''Yoga series''),
       (''location'', JObj [(''geo'', JObj [(''latitude'', JNum 54), (''longitude'', JNum (-2))])]),
       (''imin:segment'', JArr [JStr ''north''])],
      correctedEventSchedules = [], scheduledSessionsForEveryEventSchedule = [] \<rparr>"
  have prep: "prepareSessionSeries exampleEnv [northSegment] yogaSeriesItem
      = Some (Inr (Some ?prepared))"
    by (simp add: example_defs series_defs run_defs)
  have "processSessionSeriesItems exampleEnv [northSegment] [yogaSeriesItem]
        outputWithEarlierSeries
      = Some (persistSessionSeries exampleEnv yogaSeriesItem ?prepared outputWithEarlierSeries)"
    unfolding process_single processSessionSeriesItem_def prep by simp
  moreover obtain st1 where
    "persistSessionSeries exampleEnv yogaSeriesItem ?prepared outputWithEarlierSeries = Inr st1"
    by (simp add: persistSessionSeries_def example_defs run_defs)
  ultimately have run1: "processSessionSeriesItems exampleEnv [northSegment] [yogaSeriesItem]
        outputWithEarlierSeries = Some (Inr st1)"
    by simp
  obtain st2 where run2: "mergeScheduledSessionAndSessionSeriesAndWrite exampleEnv
      yogaSessionData yogaSeries outputWithEarlierSession = Inr st2"
    by (simp add: example_defs run_defs)
  have old1: "files outputWithEarlierSeries (SessionSeriesFile (exampleHash ''series-1''))
        = Some earlierSeries"
    and old2: "files outputWithEarlierSession
      (ScheduledSessionFile ''north'' (exampleHash ''occ-1'')) = Some earlierSession"
    by (simp_all add: example_defs writeJson_def)
  from same_id_put_overwrites[of exampleEnv "[northSegment]" yogaSeriesItem ?prepared
      "''series-1''" outputWithEarlierSeries earlierSeries st1
      yogaSessionData yogaSeries outputWithEarlierSession st2 "''occ-1''" "[JStr ''north'']"
      "''north''" earlierSession]
    prep run1 run2 old1 old2
  show ?thesis
    by (simp add: example_defs run_defs)
qed

text \<open>
  C4. When the file at the hash of an id already holds an object with another id, the
  write is skipped, the file keeps its content, and a warning is logged that names both
  ids and the hash. For a SessionSeries the item changes no file at all and the warning is
  the one entry added to the log; for a ScheduledSession the file in the segment keeps its
  content and the warning is in the log. Both warnings contain the stored id, the received
  id and the hash.
\<close>

theorem hash_clash_skips_write_and_warns:
  "(prepareSessionSeries e segments item = Some (Inr (Some prepared)) \<and>
    getProp item ''id'' = JStr seriesId \<and>
    files st (SessionSeriesFile (hashString e seriesId)) = Some existingSeries \<and>
    truthy existingSeries \<and> getProp existingSeries ''id'' \<noteq> JStr seriesId
    \<longrightarrow> (\<exists>st'. processSessionSeriesItems e segments [item] st = Some (Inr st') \<and>
          files st' = files st \<and>
          logged st' = logged st @
            [(''warn'', sessionSeriesHashClashWarning
                (templateString e (getProp existingSeries ''id'')) seriesId
                (hashString e seriesId))]))
   \<and>
   (mergeScheduledSessionAndSessionSeriesAndWrite e scheduledSessionData sessionSeries st2
      = Inr st2' \<and>
    getProp (JObj (mergedScheduledSessionDataOf scheduledSessionData sessionSeries)) ''id''
      = JStr occurrenceId \<and>
    iterate (getProp sessionSeries ''imin:segment'') = Inr segmentIds \<and>
    JStr seg \<in> set segmentIds \<and>
    files st2 (ScheduledSessionFile seg (hashString e occurrenceId)) = Some existingSession \<and>
    truthy existingSession \<and> getProp existingSession ''id'' \<noteq> JStr occurrenceId
    \<longrightarrow> files st2' (ScheduledSessionFile seg (hashString e occurrenceId))
          = Some existingSession \<and>
        (''warn'', scheduledSessionHashClashWarning
            (templateString e (getProp existingSession ''id'')) occurrenceId
            (hashString e occurrenceId)) \<in> set (logged st2'))
   \<and>
   (sublist existingId (sessionSeriesHashClashWarning existingId receivedId idHash) \<and>
    sublist receivedId (sessionSeriesHashClashWarning existingId receivedId idHash) \<and>
    sublist idHash (sessionSeriesHashClashWarning existingId receivedId idHash) \<and>
    sublist existingId (scheduledSessionHashClashWarning existingId receivedId idHash) \<and>
    sublist receivedId (scheduledSessionHashClashWarning existingId receivedId idHash) \<and>
    sublist idHash (scheduledSessionHashClashWarning existingId receivedId idHash))"
proof (intro conjI impI)
  assume a: "prepareSessionSeries e segments item = Some (Inr (Some prepared)) \<and>
    getProp item ''id'' = JStr seriesId \<and>
    files st (SessionSeriesFile (hashString e seriesId)) = Some existingSeries \<and>
    truthy existingSeries \<and> getProp existingSeries ''id'' \<noteq> JStr seriesId"
  then have "processSessionSeriesItems e segments [item] st =
    Some (Inr (log_msg ''warn''
      (sessionSeriesHashClashWarning (templateString e (getProp existingSeries ''id'')) seriesId
         (hashString e seriesId)) st))"
    by (intro series_clash) simp_all
  then show "\<exists>st'. processSessionSeriesItems e segments [item] st = Some (Inr st') \<and>
          files st' = files st \<and>
          logged st' = logged st @
            [(''warn'', sessionSeriesHashClashWarning
                (templateString e (getProp existingSeries ''id'')) seriesId
                (hashString e seriesId))]"
    by (simp del: getProp.simps)
next
  assume b: "mergeScheduledSessionAndSessionSeriesAndWrite e scheduledSessionData sessionSeries st2
      = Inr st2' \<and>
    getProp (JObj (mergedScheduledSessionDataOf scheduledSessionData sessionSeries)) ''id''
      = JStr occurrenceId \<and>
    iterate (getProp sessionSeries ''imin:segment'') = Inr segmentIds \<and>
    JStr seg \<in> set segmentIds \<and>
    files st2 (ScheduledSessionFile seg (hashString e occurrenceId)) = Some existingSession \<and>
    truthy existingSession \<and> getProp existingSession ''id'' \<noteq> JStr occurrenceId"
  then show "files st2' (ScheduledSessionFile seg (hashString e occurrenceId))
          = Some existingSession"
    using merge_clash(1)[of e scheduledSessionData sessionSeries st2 st2' occurrenceId
        segmentIds seg existingSession]
    by blast
  from b show "(''warn'', scheduledSessionHashClashWarning
            (templateString e (getProp existingSession ''id'')) occurrenceId
            (hashString e occurrenceId)) \<in> set (logged st2')"
    using merge_clash(2)[of e scheduledSessionData sessionSeries st2 st2' occurrenceId
        segmentIds seg existingSession]
    by blast
qed (rule warning_names_ids_and_hash)+

theorem hash_clash_skips_write_and_warns_witness:
  "(\<exists>st'. processSessionSeriesItems exampleEnv [northSegment] [yogaSeriesItem]
        outputWithOtherSeries = Some (Inr st') \<and>
      files st' (SessionSeriesFile (exampleHash ''series-1'')) = Some otherSeries \<and>
      logged st' = [(''warn'', sessionSeriesHashClashWarning ''series-9'' ''series-1''
        (exampleHash ''series-1''))])
   \<and>
   (\<exists>st'. mergeScheduledSessionAndSessionSeriesAndWrite exampleEnv yogaSessionData yogaSeries
        outputWithOtherSession = Inr st' \<and>
      files st' (ScheduledSessionFile ''north'' (exampleHash ''occ-1'')) = Some otherSession \<and>
      (''warn'', scheduledSessionHashClashWarning ''occ-9'' ''occ-1'' (exampleHash ''occ-1''))
        \<in> set (logged st'))"
proof -
  obtain st2 where run2: "mergeScheduledSessionAndSessionSeriesAndWrite exampleEnv
      yogaSessionData yogaSeries outputWithOtherSession = Inr st2"
    by (simp add: example_defs run_defs)
  have old1: "files outputWithOtherSeries (SessionSeriesFile (hashString exampleEnv ''series-1''))
        = Some otherSeries"
    and old2: "files outputWithOtherSession
      (ScheduledSessionFile ''north'' (hashString exampleEnv ''occ-1'')) = Some otherSession"
    and log1: "logged outputWithOtherSeries = []"
    by (simp_all add: outputWithOtherSeries_def outputWithOtherSession_def emptyOutput_def
        hashString_exampleEnv)
  have ids: "getProp yogaSeriesItem ''id'' = JStr ''series-1''"
    "truthy otherSeries" "getProp otherSeries ''id'' \<noteq> JStr ''series-1''"
    "truthy otherSession" "getProp otherSession ''id'' \<noteq> JStr ''occ-1''"
    "templateString exampleEnv (getProp otherSeries ''id'') = ''series-9''"
    "templateString exampleEnv (getProp otherSession ''id'') = ''occ-9''"
    by (simp_all add: yogaSeriesItem_def otherSeries_def otherSession_def templateString_def)
  note claim = hash_clash_skips_write_and_warns[of exampleEnv "[northSegment]" yogaSeriesItem _
      "''series-1''" outputWithOtherSeries otherSeries
      yogaSessionData yogaSeries outputWithOtherSession st2 "''occ-1''" "[JStr ''north'']"
      "''north''" otherSession]
  from claim[THEN conjunct1, rule_format] prepare_yogaSeriesItem ids(1,2,3) old1
  obtain st1 where "processSessionSeriesItems exampleEnv [northSegment] [yogaSeriesItem]
        outputWithOtherSeries = Some (Inr st1)"
    "files st1 = files outputWithOtherSeries"
    "logged st1 = logged outputWithOtherSeries @ [(''warn'', sessionSeriesHashClashWarning
        (templateString exampleEnv (getProp otherSeries ''id'')) ''series-1''
        (hashString exampleEnv ''series-1''))]"
    by blast
  then have first: "\<exists>st'. processSessionSeriesItems exampleEnv [northSegment] [yogaSeriesItem]
        outputWithOtherSeries = Some (Inr st') \<and>
      files st' (SessionSeriesFile (exampleHash ''series-1'')) = Some otherSeries \<and>
      logged st' = [(''warn'', sessionSeriesHashClashWarning ''series-9'' ''series-1''
        (exampleHash ''series-1''))]"
    using old1 log1 ids(6) by (simp add: hashString_exampleEnv del: getProp.simps)
  from claim[THEN conjunct2, THEN conjunct1, rule_format] run2 merged_yoga_id yogaSeries_segments
    old2 ids(4,5)
  have "files st2 (ScheduledSessionFile ''north'' (hashString exampleEnv ''occ-1''))
      = Some otherSession \<and>
    (''warn'', scheduledSessionHashClashWarning
        (templateString exampleEnv (getProp otherSession ''id'')) ''occ-1''
        (hashString exampleEnv ''occ-1'')) \<in> set (logged st2)"
    by (simp del: getProp.simps)
  with run2 ids(7) have second: "\<exists>st'. mergeScheduledSessionAndSessionSeriesAndWrite exampleEnv
        yogaSessionData yogaSeries outputWithOtherSession = Inr st' \<and>
      files st' (ScheduledSessionFile ''north'' (exampleHash ''occ-1'')) = Some otherSession \<and>
      (''warn'', scheduledSessionHashClashWarning ''occ-9'' ''occ-1'' (exampleHash ''occ-1''))
        \<in> set (logged st')"
    by (simp add: hashString_exampleEnv del: getProp.simps)
  from first second show ?thesis by (rule conjI)
qed

text \<open>
  C5, as claimed: the name of the merged record is the occurrence's own name when it has
  one. This fails: the occurrence is named \<open>Monday yoga\<close>, the superEvent of its series
  \<open>Yoga programme\<close>, and the merged record is named \<open>Yoga programme\<close>.
\<close>

theorem merged_name_prefers_series:
  "getProp yogaSessionData ''name'' = JStr ''Monday yoga'' \<and>
   getProp (JObj (mergedScheduledSessionDataOf yogaSessionData yogaSeries)) ''name''
     = JStr ''Yoga programme''"
  by (simp add: yogaSessionData_def yogaSeries_def mergedScheduledSessionDataOf_def spread_def
      jsOr_def jsAnd_def)

text \<open>
  C5, amended: every field that the occurrence defines, other than \<open>name\<close>, has the
  occurrence's value in the merged record (and in the record as written, where
  \<open>imin:fileIdentifier\<close> is set to the hash of the id); the name is that of the series'
  superEvent when it has one, else that of the series when it has one, else the
  occurrence's own.
\<close>

theorem merge_precedence:
  "(distinct (map fst (entriesOf scheduledSessionData)) \<and>
    (k, v) \<in> set (entriesOf scheduledSessionData) \<and> k \<noteq> ''name''
    \<longrightarrow> getProp (JObj (mergedScheduledSessionDataOf scheduledSessionData sessionSeries)) k = v \<and>
        (k \<noteq> ''imin:fileIdentifier'' \<longrightarrow>
           getProp (JObj (AList.update ''imin:fileIdentifier'' (JStr idHash)
             (mergedScheduledSessionDataOf scheduledSessionData sessionSeries))) k = v))
   \<and>
   getProp (JObj (mergedScheduledSessionDataOf scheduledSessionData sessionSeries)) ''name'' =
     (if truthy (getProp sessionSeries ''superEvent'') \<and>
         truthy (getProp (getProp sessionSeries ''superEvent'') ''name'')
      then getProp (getProp sessionSeries ''superEvent'') ''name''
      else if truthy (getProp sessionSeries ''name'') then getProp sessionSeries ''name''
      else getProp scheduledSessionData ''name'')"
  using merged_field[of scheduledSessionData k v sessionSeries]
    merged_name[of scheduledSessionData sessionSeries]
    getProp_update_other[of k "''imin:fileIdentifier''" "JStr idHash"
      "mergedScheduledSessionDataOf scheduledSessionData sessionSeries"]
  by (simp del: getProp.simps)

theorem merge_precedence_witness:
  "getProp (JObj (mergedScheduledSessionDataOf yogaSessionData yogaSeries)) ''startDate''
     = JStr ''2024-01-08T18:00:00Z'' \<and>
   getProp (JObj (AList.update ''imin:fileIdentifier'' (JStr (exampleHash ''occ-1''))
     (mergedScheduledSessionDataOf yogaSessionData yogaSeries))) ''startDate''
     = JStr ''2024-01-08T18:00:00Z'' \<and>
   getProp (JObj (mergedScheduledSessionDataOf yogaSessionData yogaSeries)) ''name''
     = JStr ''Yoga programme''"
proof -
  have "distinct (map fst (entriesOf yogaSessionData))"
    and "(''startDate'', JStr ''2024-01-08T18:00:00Z'') \<in> set (entriesOf yogaSessionData)"
    and "''startDate'' \<noteq> ''name''" and "''startDate'' \<noteq> ''imin:fileIdentifier''"
    and "truthy (getProp yogaSeries ''superEvent'')"
    and "getProp (getProp yogaSeries ''superEvent'') ''name'' = JStr ''Yoga programme''"
    by (simp_all add: yogaSessionData_def yogaSeries_def)
  with merge_precedence[of yogaSessionData "''startDate''" "JStr ''2024-01-08T18:00:00Z''"
      yogaSeries "exampleHash ''occ-1''"]
  show ?thesis by (simp del: getProp.simps)
qed







text \<open>
  C9, as claimed: an item whose \<open>eventAttendanceMode\<close> is \<open>OnlineEventAttendanceMode\<close> is
  never assigned the identifier of a segment whose \<open>attendanceModeFilter\<close> is
  \<open>physical-only\<close>. This fails when a second segment with another filter carries the same
  identifier, which the configuration does not exclude: with the segment \<open>north\<close> once
  \<open>physical-only\<close> and once open to all, the online-only item is assigned \<open>north\<close>.
\<close>

theorem shared_identifier_is_assigned:
  "getProp onlineSessionData ''eventAttendanceMode''
     = JStr ''https://schema.org/OnlineEventAttendanceMode'' \<and>
   attendanceModeFilter northSegment = ''physical-only'' \<and>
   generateSegmentIdentifiersForMergedScheduledSession (getDistance exampleEnv) onlineSessionData
     [northSegment, northForAllSegment] = Inr [segmentIdentifier northSegment]"
  by (simp add: generateSegmentIdentifiersForMergedScheduledSession_def onlineSessionData_def
      northSegment_def northForAllSegment_def doesEventSupportOnline_def
      doesEventSupportOffline_def getEventsEventAttendanceMode_def jsOr_def jsAnd_def
      attendanceModeMatches_def withinSegmentRadius_def)

text \<open>
  C9, amended: an item whose \<open>eventAttendanceMode\<close> is \<open>OnlineEventAttendanceMode\<close> is
  never assigned the identifier of a segment whose \<open>attendanceModeFilter\<close> is
  \<open>physical-only\<close>, provided that no configured segment with another filter carries the
  same identifier, which is the case whenever the identifiers of the configured segments
  are distinct.
\<close>

theorem physical_only_segment_excludes_online_only_item:
  assumes online: "getProp item ''eventAttendanceMode'' =
      JStr ''https://schema.org/OnlineEventAttendanceMode''"
    and seg: "seg \<in> set segments" "attendanceModeFilter seg = ''physical-only''"
    and same: "\<forall>other\<in>set segments. segmentIdentifier other = segmentIdentifier seg \<longrightarrow>
       attendanceModeFilter other = ''physical-only''"
    and run: "generateSegmentIdentifiersForMergedScheduledSession distanceFn item segments = Inr ids"
  shows "segmentIdentifier seg \<notin> set ids"
proof
  assume mem: "segmentIdentifier seg \<in> set ids"
  have off: "\<not> doesEventSupportOffline item"
    using online by (rule not_offline_when_online_only)
  from run off obtain matching keep where
    m: "filterE (attendanceModeMatches (doesEventSupportOnline item) False) segments = Inr matching"
    and "ids = map segmentIdentifier (filter keep matching)"
    by (auto simp: generateSegmentIdentifiersForMergedScheduledSession_def Let_def
        split: sum.splits if_splits)
  then have ids: "set ids \<subseteq> segmentIdentifier ` set matching"
    by auto
  from mem ids obtain other where o: "other \<in> set matching"
    "segmentIdentifier other = segmentIdentifier seg"
    by force
  from filterE_Inr[OF m o(1)] have "other \<in> set segments"
    and "attendanceModeMatches (doesEventSupportOnline item) False other = Inr True"
    by simp_all
  moreover from this(1) same o(2) have "attendanceModeFilter other = ''physical-only''"
    by simp
  ultimately show False
    by (simp add: attendanceModeMatches_def)
qed

theorem physical_only_segment_excludes_online_only_item_witness:
  "generateSegmentIdentifiersForMergedScheduledSession (getDistance exampleEnv) onlineSessionData
     [northSegment, everywhereSegment] = Inr [''everywhere''] \<and>
   attendanceModeFilter northSegment = ''physical-only'' \<and>
   segmentIdentifier northSegment \<notin> set [''everywhere'']"
proof -
  have run: "generateSegmentIdentifiersForMergedScheduledSession (getDistance exampleEnv)
      onlineSessionData [northSegment, everywhereSegment] = Inr [''everywhere'']"
    by (simp add: generateSegmentIdentifiersForMergedScheduledSession_def onlineSessionData_def
        northSegment_def everywhereSegment_def doesEventSupportOnline_def
        doesEventSupportOffline_def getEventsEventAttendanceMode_def jsOr_def jsAnd_def
        attendanceModeMatches_def withinSegmentRadius_def)
  have "getProp onlineSessionData ''eventAttendanceMode'' =
      JStr ''https://schema.org/OnlineEventAttendanceMode''"
    by (simp add: onlineSessionData_def)
  moreover have "northSegment \<in> set [northSegment, everywhereSegment]" by simp
  moreover have "attendanceModeFilter northSegment = ''physical-only''"
    by (simp add: northSegment_def)
  moreover have "\<forall>other\<in>set [northSegment, everywhereSegment].
      segmentIdentifier other = segmentIdentifier northSegment \<longrightarrow>
      attendanceModeFilter other = ''physical-only''"
    by (simp add: northSegment_def everywhereSegment_def)
  ultimately have "segmentIdentifier northSegment \<notin> set [''everywhere'']"
    using run by (rule physical_only_segment_excludes_online_only_item)
  with run \<open>attendanceModeFilter northSegment = ''physical-only''\<close> show ?thesis by simp
qed

end
